theory Spec2Isabelle
  imports Main "HOL-Library.Word"
begin

unbundle bit_operations_syntax

section \<open>JavaScript numbers used by the debugger\<close>

text \<open>
  The debugger's values are JavaScript numbers that hold integers. They are modelled as
  \<open>int\<close>; the conversions that the bitwise operators apply (ToInt32, ToUint32) are
  written out through 32-bit words.
\<close>

definition toInt32 :: "int \<Rightarrow> int" where
  "toInt32 x = sint (word_of_int x :: 32 word)"

definition toUint32 :: "int \<Rightarrow> int" where
  "toUint32 x = uint (word_of_int x :: 32 word)"

definition js_and :: "int \<Rightarrow> int \<Rightarrow> int" where
  "js_and a b = sint ((word_of_int a :: 32 word) AND word_of_int b)"

definition js_or :: "int \<Rightarrow> int \<Rightarrow> int" where
  "js_or a b = sint ((word_of_int a :: 32 word) OR word_of_int b)"

definition js_xor :: "int \<Rightarrow> int \<Rightarrow> int" where
  "js_xor a b = sint ((word_of_int a :: 32 word) XOR word_of_int b)"

definition js_not :: "int \<Rightarrow> int" where
  "js_not a = sint (NOT (word_of_int a :: 32 word))"

definition shiftCount :: "int \<Rightarrow> nat" where
  "shiftCount b = nat (toUint32 b mod 32)"

definition js_shl :: "int \<Rightarrow> int \<Rightarrow> int" where
  "js_shl a b = sint (push_bit (shiftCount b) (word_of_int a :: 32 word))"

definition js_sar :: "int \<Rightarrow> int \<Rightarrow> int" where
  "js_sar a b = sint (signed_drop_bit (shiftCount b) (word_of_int a :: 32 word))"

definition js_shr :: "int \<Rightarrow> int \<Rightarrow> int" where
  "js_shr a b = uint (drop_bit (shiftCount b) (word_of_int a :: 32 word))"

text \<open>
  \<open>val1 / val2\<close> is a floating-point quotient and \<open>|0\<close> truncates it towards zero; for
  operands below \<open>2^32\<close> in magnitude the truncated double quotient is the truncated exact
  quotient. \<open>%\<close> takes the sign of the dividend.
\<close>

definition js_trunc_div :: "int \<Rightarrow> int \<Rightarrow> int" where
  "js_trunc_div a b = sgn a * sgn b * (\<bar>a\<bar> div \<bar>b\<bar>)"

definition js_rem :: "int \<Rightarrow> int \<Rightarrow> int" where
  "js_rem a b = sgn a * (\<bar>a\<bar> mod \<bar>b\<bar>)"

text \<open>
  A product of two such integers may need more than the 53 bits of a double's mantissa:
  \<open>fl53\<close> rounds an integer to 53 significant bits, ties to even, as the multiplication
  does before \<open>|0\<close> is applied.
\<close>

fun bitlen :: "nat \<Rightarrow> nat" where
  "bitlen n = (if n = 0 then 0 else Suc (bitlen (n div 2)))"

declare bitlen.simps [simp del]

definition fl53 :: "int \<Rightarrow> int" where
  "fl53 x =
     (let a = nat \<bar>x\<bar>; n = bitlen a in
      if n \<le> 53 then x
      else
        let e = n - 53; q = a div 2 ^ e; r = a mod 2 ^ e; h = 2 ^ (e - 1);
            q' = (if h < r \<or> (r = h \<and> odd q) then q + 1 else q)
        in sgn x * int (q' * 2 ^ e))"

definition js_mul :: "int \<Rightarrow> int \<Rightarrow> int" where
  "js_mul a b = fl53 (a * b)"

section \<open>Strings\<close>

definition startsWith :: "string \<Rightarrow> string \<Rightarrow> bool" where
  "startsWith s p = (take (length p) s = p)"

definition isSpace :: "char \<Rightarrow> bool" where
  "isSpace c = (c \<in> set [CHR '' '', CHR 0x09, CHR 0x0A, CHR 0x0B, CHR 0x0C, CHR 0x0D])"

text \<open>
  Modelled from the spec: \<open>str.trim\<close> of the shared string library, which is not part of
  this source file; it removes the white space at both ends of a string.
\<close>

definition str_trim :: "string \<Rightarrow> string" where
  "str_trim s = rev (dropWhile isSpace (rev (dropWhile isSpace s)))"

definition toUpperChar :: "char \<Rightarrow> char" where
  "toUpperChar c =
     (case map_of (zip ''abcdefghijklmnopqrstuvwxyz'' ''ABCDEFGHIJKLMNOPQRSTUVWXYZ'') c of
        Some u \<Rightarrow> u | None \<Rightarrow> c)"

definition toUpperCase :: "string \<Rightarrow> string" where
  "toUpperCase s = map toUpperChar s"

definition digitValue :: "char \<Rightarrow> nat option" where
  "digitValue c =
     map_of (zip ''0123456789abcdefABCDEF''
                 [0, 1, 2, 3, 4, 5, 6, 7, 8, 9, 10, 11, 12, 13, 14, 15, 10, 11, 12, 13, 14, 15]) c"

fun parseDigits :: "nat \<Rightarrow> int \<Rightarrow> string \<Rightarrow> int option" where
  "parseDigits base acc [] = Some acc"
| "parseDigits base acc (c # cs) =
     (case digitValue c of
        None \<Rightarrow> None
      | Some d \<Rightarrow> if d < base then parseDigits base (acc * int base + int d) cs else None)"

text \<open>
  Modelled from the spec: \<open>str.parseInt\<close> of the shared string library, which is not part
  of this source file. A numeric literal is hexadecimal by default; a trailing period
  makes it decimal. Anything else is not a number (\<open>undefined\<close>, here \<open>None\<close>).
\<close>

definition str_parseInt :: "string \<Rightarrow> int option" where
  "str_parseInt s =
     (if s = [] then None
      else if last s = CHR ''.'' then
        (if butlast s = [] then None else map_option toInt32 (parseDigits 10 0 (butlast s)))
      else map_option toInt32 (parseDigits 16 0 s))"

section \<open>The CPU as the debugger reads it\<close>

text \<open>
  The CPU is a collaborator outside this source file. The record holds what the debugger
  reads from it: the general registers, the values of the accessor methods
  (\<open>getSP()\<close>, \<open>getIP()\<close>, \<open>getPS()\<close>, \<open>getCS()\<close>, ...), the model number, whether it is
  running and what \<open>probeAddr\<close> returns for a physical address.
\<close>

record X86Seg =
  seg_limit :: int
  seg_maskAddr :: int
  seg_offMax :: int
  seg_sizeData :: int
  seg_sizeAddr :: int
  seg_checkReadDebugger :: "int \<Rightarrow> int \<Rightarrow> int"
  seg_checkWriteDebugger :: "int \<Rightarrow> int \<Rightarrow> int"

record X86CPU =
  regEAX :: int
  regECX :: int
  regEDX :: int
  regEBX :: int
  regEBP :: int
  regESI :: int
  regEDI :: int
  regCR0 :: int
  regCR1 :: int
  regCR2 :: int
  regCR3 :: int
  regPS :: int
  nIOPL :: int
  nCPL :: int
  getSP :: int
  getIP :: int
  getPS :: int
  getES :: int
  getCS :: int
  getSS :: int
  getDS :: int
  getFS :: int
  getGS :: int
  model :: int
  segCS :: X86Seg
  segDS :: X86Seg
  segES :: X86Seg
  segSS :: X86Seg
  segFS :: X86Seg
  segGS :: X86Seg
  isRunning :: bool
  probeAddr :: "int \<Rightarrow> int option"

definition MODEL_80286 :: int where "MODEL_80286 = 80286"
definition MODEL_80386 :: int where "MODEL_80386 = 80386"

section \<open>Registers by name\<close>

definition REGS :: "string option list" where
  "REGS =
    [Some ''AL'',  Some ''CL'',  Some ''DL'',  Some ''BL'',  Some ''AH'',  Some ''CH'',  Some ''DH'',  Some ''BH'',
     Some ''AX'',  Some ''CX'',  Some ''DX'',  Some ''BX'',  Some ''SP'',  Some ''BP'',  Some ''SI'',  Some ''DI'',
     Some ''ES'',  Some ''CS'',  Some ''SS'',  Some ''DS'',  Some ''FS'',  Some ''GS'',  Some ''IP'',  Some ''PS'',
     Some ''EAX'', Some ''ECX'', Some ''EDX'', Some ''EBX'', Some ''ESP'', Some ''EBP'', Some ''ESI'', Some ''EDI'',
     Some ''CR0'', Some ''CR1'', Some ''CR2'', Some ''CR3'', None, None, None, None,
     Some ''DR0'', Some ''DR1'', Some ''DR2'', Some ''DR3'', None, None, Some ''DR6'', Some ''DR7'',
     None, None, None, None, None, None, Some ''TR6'', Some ''TR7'',
     Some ''EIP'']"

text \<open>\<open>usr.indexOf(a, t)\<close>: the first index of \<open>t\<close> in the array, or \<open>-1\<close>.\<close>

fun indexFrom :: "int \<Rightarrow> 'a list \<Rightarrow> 'a \<Rightarrow> int" where
  "indexFrom i [] t = -1"
| "indexFrom i (x # xs) t = (if x = t then i else indexFrom (i + 1) xs t)"

definition usr_indexOf :: "'a list \<Rightarrow> 'a \<Rightarrow> int" where
  "usr_indexOf a t = indexFrom 0 a t"

text \<open>\<open>getRegIndex(sReg)\<close> with no offset argument, as \<open>parseValue\<close> calls it.\<close>

definition getRegIndex :: "string \<Rightarrow> int" where
  "getRegIndex sReg = usr_indexOf REGS (Some (toUpperCase sReg))"

definition getRegValue :: "bool \<Rightarrow> X86CPU \<Rightarrow> int \<Rightarrow> int option" where
  "getRegValue I386 cpu iReg =
     (if iReg \<ge> 0 then
        if iReg = 0x00 then Some (js_and (regEAX cpu) 0xff)
        else if iReg = 0x01 then Some (js_and (regECX cpu) 0xff)
        else if iReg = 0x02 then Some (js_and (regEDX cpu) 0xff)
        else if iReg = 0x03 then Some (js_and (regEBX cpu) 0xff)
        else if iReg = 0x04 then Some (js_and (js_sar (regEAX cpu) 8) 0xff)
        else if iReg = 0x05 then Some (js_and (js_sar (regECX cpu) 8) 0xff)
        else if iReg = 0x06 then Some (js_and (js_sar (regEDX cpu) 8) 0xff)
        else if iReg = 0x07 then Some (js_and (js_sar (regEBX cpu) 8) 0xff)
        else if iReg = 0x08 then Some (js_and (regEAX cpu) 0xffff)
        else if iReg = 0x09 then Some (js_and (regECX cpu) 0xffff)
        else if iReg = 0x0A then Some (js_and (regEDX cpu) 0xffff)
        else if iReg = 0x0B then Some (js_and (regEBX cpu) 0xffff)
        else if iReg = 0x0C then Some (js_and (getSP cpu) 0xffff)
        else if iReg = 0x0D then Some (js_and (regEBP cpu) 0xffff)
        else if iReg = 0x0E then Some (js_and (regESI cpu) 0xffff)
        else if iReg = 0x0F then Some (js_and (regEDI cpu) 0xffff)
        else if iReg = 0x16 then Some (js_and (getIP cpu) 0xffff)
        else if iReg = 0x17 then Some (getPS cpu)
        else if iReg = 0x10 then Some (getES cpu)
        else if iReg = 0x11 then Some (getCS cpu)
        else if iReg = 0x12 then Some (getSS cpu)
        else if iReg = 0x13 then Some (getDS cpu)
        else if model cpu = MODEL_80286 then
          (if iReg = 0x20 then Some (regCR0 cpu) else None)
        else if I386 \<and> model cpu \<ge> MODEL_80386 then
          (if iReg = 0x18 then Some (regEAX cpu)
           else if iReg = 0x19 then Some (regECX cpu)
           else if iReg = 0x1A then Some (regEDX cpu)
           else if iReg = 0x1B then Some (regEBX cpu)
           else if iReg = 0x1C then Some (getSP cpu)
           else if iReg = 0x1D then Some (regEBP cpu)
           else if iReg = 0x1E then Some (regESI cpu)
           else if iReg = 0x1F then Some (regEDI cpu)
           else if iReg = 0x20 then Some (regCR0 cpu)
           else if iReg = 0x21 then Some (regCR1 cpu)
           else if iReg = 0x22 then Some (regCR2 cpu)
           else if iReg = 0x23 then Some (regCR3 cpu)
           else if iReg = 0x14 then Some (getFS cpu)
           else if iReg = 0x15 then Some (getGS cpu)
           else if iReg = 0x38 then Some (getIP cpu)
           else None)
        else None
      else None)"

section \<open>The debugger's state\<close>

text \<open>
  \<open>DbgAddr\<close>: \<open>null\<close> and \<open>undefined\<close> fields are \<open>None\<close>. The address types are the
  numbers of \<open>Debugger.ADDR\<close>.
\<close>

record DbgAddr =
  off :: int
  sel :: "int option"
  addr :: "int option"
  addrType :: int
  fData32 :: bool
  fAddr32 :: bool
  cOverrides :: "int option"
  fComplete :: "bool option"
  fTempBreak :: bool
  sCmd :: "string option"
  aCmds :: "string list option"

definition ADDR_REAL :: int where "ADDR_REAL = 0x01"
definition ADDR_PROT :: int where "ADDR_PROT = 0x02"

text \<open>
  The fields of the \<open>Debugger\<close> object that the modelled functions read or write.
  The three breakpoint arrays hold a label at index 0 in the source; the lists here hold
  the breakpoints only, so index \<open>i\<close> of the source is index \<open>i - 1\<close> here.
  \<open>DEBUG\<close>, \<open>MAXDEBUG\<close> and \<open>I386\<close> are the compile-time flags, \<open>ADDR_INVALID\<close> and
  \<open>OPCODE_INT3\<close> the constants of the \<open>X86\<close> module, \<open>HISTORY_LIMIT\<close> and \<open>TRACE_LIMIT\<close>
  the two buffer capacities; \<open>messageEnabled_INT\<close> and \<open>messageEnabled_INT_HALT\<close> are what
  the inherited \<open>messageEnabled\<close> returns for \<open>Messages.INT\<close> and for
  \<open>Messages.INT | Messages.HALT\<close>.

  A breakpoint array is an object: \<open>push\<close> and \<open>splice\<close> change it in place, while
  \<open>clearBreakpoints\<close> assigns new arrays to the three fields and leaves the old ones as
  they are, for whoever still holds them. So the arrays are numbered in the order they
  are made (\<open>cArrays\<close> counts them); \<open>refBreakExec\<close>, \<open>refBreakRead\<close> and
  \<open>refBreakWrite\<close> are the numbers of the arrays that the three fields hold, \<open>aBreakExec\<close>,
  \<open>aBreakRead\<close> and \<open>aBreakWrite\<close> the contents of those arrays, and \<open>droppedArrays\<close>
  the contents, by number, of the arrays that the fields held earlier.

  The record is the debugger after \<open>initBus\<close>, which allocates the scratch segment
  register \<open>segDebugger\<close>; that register is reloaded before each use, so only what it
  holds after \<open>loadReal(sel)\<close> and after \<open>probeDesc(sel)\<close> is kept, as two functions of
  the selector.
\<close>

record Debugger =
  DEBUG :: bool
  MAXDEBUG :: bool
  I386 :: bool
  ADDR_INVALID :: int
  OPCODE_INT3 :: int
  HISTORY_LIMIT :: nat
  TRACE_LIMIT :: nat
  cpu :: X86CPU
  maskAddr :: int
  loadReal :: "int option \<Rightarrow> X86Seg"
  probeDesc :: "int option \<Rightarrow> X86Seg"
  nSuppressBreaks :: int
  aBreakExec :: "DbgAddr list"
  aBreakRead :: "DbgAddr list"
  aBreakWrite :: "DbgAddr list"
  refBreakExec :: nat
  refBreakRead :: nat
  refBreakWrite :: nat
  cArrays :: nat
  droppedArrays :: "nat \<Rightarrow> DbgAddr list"
  messageEnabled_INT :: bool
  messageEnabled_INT_HALT :: bool
  aVariables :: "string \<rightharpoonup> int"
  cOpcodes :: int
  aOpcodeHistory :: "DbgAddr list"
  iOpcodeHistory :: nat
  aaOpcodeCounts :: "(int \<times> int) list"
  traceEnabled :: "(string \<times> bool) list option"
  iTraceBuffer :: nat
  aTraceBuffer :: "string option list"

section \<open>The expression evaluator\<close>

definition aBinOpPrecedence :: "string \<Rightarrow> nat option" where
  "aBinOpPrecedence = map_of
    [(''||'', 0), (''&&'', 1), (''|'', 2), (''^'', 3), (''&'', 4), (''!='', 5), (''=='', 5),
     (''>='', 6), (''>'', 6), (''<='', 6), (''<'', 6), (''>>>'', 7), (''>>'', 7), (''<<'', 7),
     (''-'', 8), (''+'', 8), (''%'', 9), (''/'', 9), (''*'', 9)]"

text \<open>
  The \<open>switch\<close> of \<open>evalExpression\<close>: \<open>valNew\<close> for an operator and its two operands;
  \<open>None\<close> where the source returns \<open>false\<close>. For \<open>/\<close> the value is given already
  truncated, which is what \<open>valNew|0\<close> keeps of the quotient.
\<close>

definition binOp :: "string \<Rightarrow> int \<Rightarrow> int \<Rightarrow> int option" where
  "binOp chOp val1 val2 =
     (if chOp = ''*'' then Some (js_mul val1 val2)
      else if chOp = ''/'' then (if val2 = 0 then None else Some (js_trunc_div val1 val2))
      else if chOp = ''%'' then (if val2 = 0 then None else Some (js_rem val1 val2))
      else if chOp = ''+'' then Some (val1 + val2)
      else if chOp = ''-'' then Some (val1 - val2)
      else if chOp = ''<<'' then Some (js_shl val1 val2)
      else if chOp = ''>>'' then Some (js_sar val1 val2)
      else if chOp = ''>>>'' then Some (js_shr val1 val2)
      else if chOp = ''<'' then Some (if val1 < val2 then 1 else 0)
      else if chOp = ''<='' then Some (if val1 \<le> val2 then 1 else 0)
      else if chOp = ''>'' then Some (if val1 > val2 then 1 else 0)
      else if chOp = ''>='' then Some (if val1 \<ge> val2 then 1 else 0)
      else if chOp = ''=='' then Some (if val1 = val2 then 1 else 0)
      else if chOp = ''!='' then Some (if val1 \<noteq> val2 then 1 else 0)
      else if chOp = ''&'' then Some (js_and val1 val2)
      else if chOp = ''^'' then Some (js_xor val1 val2)
      else if chOp = ''|'' then Some (js_or val1 val2)
      else if chOp = ''&&'' then Some (if val1 \<noteq> 0 \<and> val2 \<noteq> 0 then 1 else 0)
      else if chOp = ''||'' then Some (if val1 \<noteq> 0 \<or> val2 \<noteq> 0 then 1 else 0)
      else None)"

text \<open>
  The two stacks are JavaScript arrays used with \<open>push\<close> and \<open>pop\<close>; here the head of
  a list is the top of the stack. The loop \<open>while (cOps-- && aOps.length)\<close> pops the
  operator before it looks at the values, and pops both values before it can fail on
  the operator.
\<close>

fun evalLoop :: "int list \<Rightarrow> string list \<Rightarrow> int \<Rightarrow> bool \<times> int list \<times> string list" where
  "evalLoop aVals [] cOps = (True, aVals, [])"
| "evalLoop aVals (chOp # aOps) cOps =
     (if cOps = 0 then (True, aVals, chOp # aOps)
      else
        (case aVals of
           val2 # val1 # rest \<Rightarrow>
             (case binOp chOp val1 val2 of
                None \<Rightarrow> (False, rest, aOps)
              | Some valNew \<Rightarrow> evalLoop (toInt32 valNew # rest) aOps (cOps - 1))
         | _ \<Rightarrow> (False, aVals, aOps)))"

definition evalExpression ::
  "int list \<Rightarrow> string list \<Rightarrow> int option \<Rightarrow> bool \<times> int list \<times> string list" where
  "evalExpression aVals aOps cOps =
     evalLoop aVals aOps (case cOps of None \<Rightarrow> -1 | Some c \<Rightarrow> if c = 0 then -1 else c)"

definition getVariable :: "Debugger \<Rightarrow> string \<Rightarrow> int option" where
  "getVariable dbg sVar = aVariables dbg sVar"

definition parseValue :: "Debugger \<Rightarrow> string option \<Rightarrow> int option" where
  "parseValue dbg sValue =
     (case sValue of
        None \<Rightarrow> None
      | Some s \<Rightarrow>
          let iReg = getRegIndex s in
          if iReg \<ge> 0 then getRegValue (I386 dbg) (cpu dbg) iReg
          else (case getVariable dbg s of
                  Some value \<Rightarrow> Some value
                | None \<Rightarrow> str_parseInt s))"

subsection \<open>Splitting the expression\<close>

text \<open>
  The regular expression of \<open>parseExpression\<close> is an alternation of literal operators,
  except that its fourth alternative is written \<open>^\<close> with no backslash: that is the
  start-of-input assertion, which matches the empty string at index 0 and nothing else.
\<close>

datatype alt = Lit string | Bol

definition regExp :: "alt list" where
  "regExp =
    [Lit ''||'', Lit ''&&'', Lit ''|'', Bol, Lit ''&'', Lit ''!='', Lit ''=='', Lit ''>='',
     Lit ''>>>'', Lit ''>>'', Lit ''>'', Lit ''<='', Lit ''<<'', Lit ''<'', Lit ''-'', Lit ''+'',
     Lit ''%'', Lit ''/'', Lit ''*'']"

text \<open>Matching at index \<open>q\<close> of \<open>S\<close>: the end index of the first alternative that matches.\<close>

fun matchAlt :: "string \<Rightarrow> nat \<Rightarrow> alt \<Rightarrow> nat option" where
  "matchAlt S q (Lit p) = (if startsWith (drop q S) p then Some (q + length p) else None)"
| "matchAlt S q Bol = (if q = 0 then Some q else None)"

fun matchAt :: "alt list \<Rightarrow> string \<Rightarrow> nat \<Rightarrow> nat option" where
  "matchAt [] S q = None"
| "matchAt (a # as) S q =
     (case matchAlt S q a of Some e \<Rightarrow> Some e | None \<Rightarrow> matchAt as S q)"

lemma matchAt_ge: "matchAt R S q = Some e \<Longrightarrow> q \<le> e"
proof (induction R)
  case Nil
  then show ?case by simp
next
  case (Cons a R)
  then show ?case by (cases a) (auto split: option.splits if_splits)
qed

definition substring :: "string \<Rightarrow> nat \<Rightarrow> nat \<Rightarrow> string" where
  "substring S i j = take (j - i) (drop i S)"

text \<open>
  \<open>String.prototype.split\<close> with a regular expression that has one capturing group
  around everything: \<open>p\<close> is the start of the current piece, \<open>q\<close> the index tried; a match
  that ends at \<open>p\<close> is skipped; otherwise the piece and the captured separator are
  appended.
\<close>

function splitLoop :: "alt list \<Rightarrow> string \<Rightarrow> nat \<Rightarrow> nat \<Rightarrow> string list \<Rightarrow> string list" where
  "splitLoop R S p q A =
     (if q < length S then
        (case matchAt R S q of
           None \<Rightarrow> splitLoop R S p (q + 1) A
         | Some e \<Rightarrow>
             if e = p then splitLoop R S p (q + 1) A
             else splitLoop R S e e (A @ [substring S p q, substring S q e]))
      else A @ [substring S p (length S)])"
  by pat_completeness auto
termination
proof (relation "measures [\<lambda>(R, S, p, q, A). length S - q, \<lambda>(R, S, p, q, A). if p = q then 0 else 1]",
       goal_cases)
  case 1
  then show ?case by simp
next
  case (2 R S p q A)
  then show ?case by auto
next
  case (3 R S p q A e)
  then show ?case by auto
next
  case (4 R S p q A e)
  then have "q \<le> e" by (simp add: matchAt_ge)
  with 4 show ?case by (cases "e = q") auto
qed

declare splitLoop.simps [simp del]

definition js_split :: "alt list \<Rightarrow> string \<Rightarrow> string list" where
  "js_split R S =
     (if S = [] then (case matchAt R S 0 of Some e \<Rightarrow> [] | None \<Rightarrow> [S])
      else splitLoop R S 0 0 [])"

subsection \<open>References\<close>

definition isLineTerminator :: "char \<Rightarrow> bool" where
  "isLineTerminator c = (c = CHR 0x0A \<or> c = CHR 0x0D)"

text \<open>Whether \<open>/\<open>(.*?)\<close>/\<close> matches for an opening and a closing character.\<close>

fun hasPair :: "char \<Rightarrow> char \<Rightarrow> string \<Rightarrow> bool" where
  "hasPair l r [] = False"
| "hasPair l r (c # cs) =
     ((c = l \<and> r \<in> set (takeWhile (\<lambda>x. \<not> isLineTerminator x) cs)) \<or> hasPair l r cs)"

text \<open>
  \<open>parseReference\<close> replaces every \<open>{expression}\<close> by the value of the expression and
  every \<open>[address]\<close> by the memory word at the address, through \<open>parseAddr\<close> and
  \<open>getWord\<close>. Those replacements are the parameter \<open>substitute\<close>; a string with no
  such reference enters neither loop and is returned as it is.
\<close>

definition parseReference :: "(string \<Rightarrow> string) \<Rightarrow> string \<Rightarrow> string" where
  "parseReference substitute sValue =
     (if hasPair (CHR ''{'') (CHR ''}'') sValue \<or> hasPair (CHR ''['') (CHR '']'') sValue
      then substitute sValue else sValue)"

subsection \<open>Parsing\<close>

text \<open>
  \<open>Debugger.aBinOpPrecedence[sOp] < Debugger.aBinOpPrecedence[aOps[aOps.length-1]]\<close>:
  a comparison with \<open>undefined\<close> is false.
\<close>

definition precLess :: "string \<Rightarrow> string \<Rightarrow> bool" where
  "precLess sOp sTop =
     (case (aBinOpPrecedence sOp, aBinOpPrecedence sTop) of
        (Some a, Some b) \<Rightarrow> a < b
      | _ \<Rightarrow> False)"

text \<open>
  The \<open>while\<close> loop over \<open>asValues\<close>: values at the even indices, operators at the odd
  ones. The result of the one-step \<open>evalExpression\<close> inside the loop is not looked at.
  The first component of the result is \<open>fError\<close>.
\<close>

definition pushOperator :: "int list \<Rightarrow> string list \<Rightarrow> string \<Rightarrow> int list \<times> string list" where
  "pushOperator aVals aOps sOp =
     (if aOps \<noteq> [] \<and> precLess sOp (hd aOps) then
        (case evalExpression aVals aOps (Some 1) of (ok, aVals', aOps') \<Rightarrow> (aVals', sOp # aOps'))
      else (aVals, sOp # aOps))"

fun parseTokens ::
  "Debugger \<Rightarrow> int list \<Rightarrow> string list \<Rightarrow> string list \<Rightarrow> bool \<times> int list \<times> string list" where
  "parseTokens dbg aVals aOps [] = (False, aVals, aOps)"
| "parseTokens dbg aVals aOps (sValue # rest) =
     (let s = str_trim sValue in
      if s = [] then (True, aVals, aOps)
      else
        (case parseValue dbg (Some s) of
           None \<Rightarrow> (True, aVals, aOps)
         | Some v \<Rightarrow>
             (case rest of
                [] \<Rightarrow> (False, v # aVals, aOps)
              | sOp # rest' \<Rightarrow>
                  (case pushOperator (v # aVals) aOps sOp of
                     (aVals', aOps') \<Rightarrow> parseTokens dbg aVals' aOps' rest'))))"

definition parseExpression :: "Debugger \<Rightarrow> (string \<Rightarrow> string) \<Rightarrow> string option \<Rightarrow> int option" where
  "parseExpression dbg substitute sExp =
     (case sExp of
        None \<Rightarrow> None
      | Some s0 \<Rightarrow>
          if s0 = [] then None
          else
            (case parseTokens dbg [] [] (js_split regExp (parseReference substitute s0)) of
               (fError, aVals, aOps) \<Rightarrow>
                 (case evalExpression aVals aOps None of
                    (ok, aVals', aOps') \<Rightarrow>
                      if \<not> fError \<and> ok \<and> length aVals' = 1 then Some (hd aVals') else None)))"

section \<open>The address model\<close>

definition CR0_MSW_PE :: int where "CR0_MSW_PE = 0x1"
definition PS_VM :: int where "PS_VM = 0x20000"
definition PS_IF :: int where "PS_IF = 0x200"

definition getCurrentMode :: "Debugger \<Rightarrow> bool" where
  "getCurrentMode dbg =
     (js_and (regCR0 (cpu dbg)) CR0_MSW_PE \<noteq> 0 \<and> \<not> (js_and (regPS (cpu dbg)) PS_VM \<noteq> 0))"

definition getCurrentType :: "Debugger \<Rightarrow> int" where
  "getCurrentType dbg = (if getCurrentMode dbg then ADDR_PROT else ADDR_REAL)"

text \<open>\<open>getSegment(sel, type)\<close>; a \<open>type\<close> of 0 stands for an omitted one.\<close>

definition getSegment :: "Debugger \<Rightarrow> int option \<Rightarrow> int \<Rightarrow> X86Seg option" where
  "getSegment dbg sl tp =
     (let typeDefault = getCurrentType dbg;
          tp' = (if tp = 0 then typeDefault else tp);
          c = cpu dbg;
          viaDebugger =
            (if tp' \<noteq> ADDR_PROT
             then Some ((loadReal dbg sl)\<lparr>seg_limit := 0xffff, seg_offMax := 0x10000\<rparr>)
             else Some (probeDesc dbg sl))
      in
      if tp' = typeDefault then
        if sl = Some (getCS c) then Some (segCS c)
        else if sl = Some (getDS c) then Some (segDS c)
        else if sl = Some (getES c) then Some (segES c)
        else if sl = Some (getSS c) then Some (segSS c)
        else if I386 dbg \<and> model c \<ge> MODEL_80386 \<and> sl = Some (getFS c) then Some (segFS c)
        else if I386 dbg \<and> model c \<ge> MODEL_80386 \<and> sl = Some (getGS c) then Some (segGS c)
        else if nSuppressBreaks dbg \<noteq> 0 \<and> tp' = ADDR_PROT then None
        else viaDebugger
      else viaDebugger)"

text \<open>
  \<open>getAddr(dbgAddr, fWrite, nb)\<close> returns the linear address and caches it in the
  \<open>DbgAddr\<close>, which is returned as the second component. \<open>nb\<close> omitted is \<open>None\<close>.
\<close>

definition nbOrOne :: "int option \<Rightarrow> int" where
  "nbOrOne nb = (case nb of None \<Rightarrow> 1 | Some n \<Rightarrow> if n = 0 then 1 else n)"

definition getAddr :: "Debugger \<Rightarrow> DbgAddr \<Rightarrow> bool \<Rightarrow> int option \<Rightarrow> int \<times> DbgAddr" where
  "getAddr dbg dbgAddr fWrite nb =
     (case addr dbgAddr of
        Some a \<Rightarrow> (a, dbgAddr)
      | None \<Rightarrow>
          (case getSegment dbg (sel dbgAddr) (addrType dbgAddr) of
             None \<Rightarrow> (ADDR_INVALID dbg, dbgAddr)
           | Some seg \<Rightarrow>
               let a = (if \<not> fWrite then seg_checkReadDebugger seg (off dbgAddr) (nbOrOne nb)
                        else seg_checkWriteDebugger seg (off dbgAddr) (nbOrOne nb))
               in (a, dbgAddr\<lparr>addr := Some a\<rparr>)))"

text \<open>\<open>checkLimit(dbgAddr, fUpdate)\<close>: the verdict and the \<open>DbgAddr\<close>, updated if asked.\<close>

definition checkLimit :: "Debugger \<Rightarrow> DbgAddr \<Rightarrow> bool \<Rightarrow> bool \<times> DbgAddr" where
  "checkLimit dbg dbgAddr fUpdate =
     (case sel dbgAddr of
        None \<Rightarrow> (True, dbgAddr)
      | Some s \<Rightarrow>
          (case getSegment dbg (sel dbgAddr) (addrType dbgAddr) of
             None \<Rightarrow> (True, dbgAddr)
           | Some seg \<Rightarrow>
               let off' = js_and (off dbgAddr) (seg_maskAddr seg) in
               if toUint32 off' \<ge> seg_offMax seg then (False, dbgAddr)
               else if fUpdate then
                 (True, dbgAddr\<lparr>off := off', fData32 := (seg_sizeData seg = 4),
                                 fAddr32 := (seg_sizeAddr seg = 4)\<rparr>)
               else (True, dbgAddr)))"

text \<open>\<open>incAddr(dbgAddr, inc)\<close>; an \<open>inc\<close> of 0 stands for an omitted one, and both become 1.\<close>

definition incAddr :: "Debugger \<Rightarrow> DbgAddr \<Rightarrow> int \<Rightarrow> DbgAddr" where
  "incAddr dbg dbgAddr inc0 =
     (let inc = (if inc0 = 0 then 1 else inc0);
          a1 = (case addr dbgAddr of None \<Rightarrow> dbgAddr | Some a \<Rightarrow> dbgAddr\<lparr>addr := Some (a + inc)\<rparr>)
      in
      case sel a1 of
        None \<Rightarrow> a1
      | Some s \<Rightarrow>
          let a2 = a1\<lparr>off := off a1 + inc\<rparr> in
          if \<not> fst (checkLimit dbg a2 False) then a2\<lparr>off := 0, addr := None\<rparr> else a2)"

definition probeValue :: "Debugger \<Rightarrow> int \<Rightarrow> int" where
  "probeValue dbg a = (case probeAddr (cpu dbg) a of None \<Rightarrow> 0 | Some b \<Rightarrow> b)"

text \<open>
  The three readers return the value read and the \<open>DbgAddr\<close> as they leave it. An \<open>inc\<close>
  of 0 stands for an omitted one: the address is then not advanced.
\<close>

definition getByte :: "Debugger \<Rightarrow> DbgAddr \<Rightarrow> int \<Rightarrow> int \<times> DbgAddr" where
  "getByte dbg dbgAddr inc =
     (case getAddr dbg dbgAddr False (Some 1) of
        (a, dbgAddr') \<Rightarrow>
          if a \<noteq> ADDR_INVALID dbg then
            (js_or (probeValue dbg a) 0,
             if inc \<noteq> 0 then incAddr dbg dbgAddr' inc else dbgAddr')
          else (0xff, dbgAddr'))"

definition getShort :: "Debugger \<Rightarrow> DbgAddr \<Rightarrow> int \<Rightarrow> int \<times> DbgAddr" where
  "getShort dbg dbgAddr inc =
     (case getAddr dbg dbgAddr False (Some 2) of
        (a, dbgAddr') \<Rightarrow>
          if a \<noteq> ADDR_INVALID dbg then
            (js_or (probeValue dbg a) (js_shl (probeValue dbg (a + 1)) 8),
             if inc \<noteq> 0 then incAddr dbg dbgAddr' inc else dbgAddr')
          else (0xffff, dbgAddr'))"

definition getLong :: "Debugger \<Rightarrow> DbgAddr \<Rightarrow> int \<Rightarrow> int \<times> DbgAddr" where
  "getLong dbg dbgAddr inc =
     (case getAddr dbg dbgAddr False (Some 4) of
        (a, dbgAddr') \<Rightarrow>
          if a \<noteq> ADDR_INVALID dbg then
            (js_or (js_or (js_or (probeValue dbg a) (js_shl (probeValue dbg (a + 1)) 8))
                          (js_shl (probeValue dbg (a + 2)) 16))
                   (js_shl (probeValue dbg (a + 3)) 24),
             if inc \<noteq> 0 then incAddr dbg dbgAddr' inc else dbgAddr')
          else (-1, dbgAddr'))"

text \<open>
  \<open>setAddr\<close> with the address type and the two sizes defaulted from the CPU where they are
  omitted (\<open>None\<close>, and 0 for the type); \<open>newAddr\<close> applies it to a fresh object.
\<close>

definition setAddr ::
  "Debugger \<Rightarrow> DbgAddr \<Rightarrow> int \<Rightarrow> int option \<Rightarrow> int option \<Rightarrow> int \<Rightarrow> bool option \<Rightarrow> bool option \<Rightarrow> DbgAddr" where
  "setAddr dbg dbgAddr off' sel' addr' tp fData32' fAddr32' =
     dbgAddr\<lparr>off := off', sel := sel', addr := addr',
             addrType := (if tp = 0 then getCurrentType dbg else tp),
             fData32 := (case fData32' of Some f \<Rightarrow> f | None \<Rightarrow> seg_sizeData (segCS (cpu dbg)) = 4),
             fAddr32 := (case fAddr32' of Some f \<Rightarrow> f | None \<Rightarrow> seg_sizeAddr (segCS (cpu dbg)) = 4),
             fTempBreak := False\<rparr>"

definition emptyAddr :: DbgAddr where
  "emptyAddr = \<lparr>off = 0, sel = None, addr = None, addrType = 0, fData32 = False, fAddr32 = False,
     cOverrides = None, fComplete = None, fTempBreak = False, sCmd = None, aCmds = None\<rparr>"

definition newAddr ::
  "Debugger \<Rightarrow> int \<Rightarrow> int option \<Rightarrow> int option \<Rightarrow> int \<Rightarrow> bool option \<Rightarrow> bool option \<Rightarrow> DbgAddr" where
  "newAddr dbg off' sel' addr' tp fData32' fAddr32' =
     setAddr dbg emptyAddr off' sel' addr' tp fData32' fAddr32'"

section \<open>Breakpoints\<close>

text \<open>
  The functions take the breakpoint array as an argument and compare it with
  \<open>this.aBreakExec\<close> and \<open>this.aBreakWrite\<close>: for the callers that pass the array of
  a field, the argument is one of the three arrays.
\<close>

datatype BreakKind = Exec | Read | Write

fun getBreak :: "Debugger \<Rightarrow> BreakKind \<Rightarrow> DbgAddr list" where
  "getBreak dbg Exec = aBreakExec dbg"
| "getBreak dbg Read = aBreakRead dbg"
| "getBreak dbg Write = aBreakWrite dbg"

fun setBreak :: "Debugger \<Rightarrow> BreakKind \<Rightarrow> DbgAddr list \<Rightarrow> Debugger" where
  "setBreak dbg Exec l = dbg\<lparr>aBreakExec := l\<rparr>"
| "setBreak dbg Read l = dbg\<lparr>aBreakRead := l\<rparr>"
| "setBreak dbg Write l = dbg\<lparr>aBreakWrite := l\<rparr>"

definition mapBreakpoint :: "Debugger \<Rightarrow> int \<Rightarrow> int" where
  "mapBreakpoint dbg a =
     (if a \<noteq> ADDR_INVALID dbg then
        let mask = js_and (maskAddr dbg) (js_not 0xffff) in
        if js_and a mask = mask then js_and a 0x000fffff else a
      else a)"

definition checksEnabled :: "Debugger \<Rightarrow> bool \<Rightarrow> bool" where
  "checksEnabled dbg fRelease =
     (if DEBUG dbg \<and> \<not> fRelease then True
      else (length (aBreakExec dbg) > 0 \<or> messageEnabled_INT dbg))"

definition historyInit :: "Debugger \<Rightarrow> Debugger" where
  "historyInit dbg =
     (if \<not> checksEnabled dbg False then
        dbg\<lparr>iOpcodeHistory := 0, aOpcodeHistory := [], aaOpcodeCounts := []\<rparr>
      else
        let dbg1 =
              (if aOpcodeHistory dbg = [] then
                 dbg\<lparr>aOpcodeHistory := replicate (HISTORY_LIMIT dbg) (newAddr dbg 0 None None 0 None None),
                     iOpcodeHistory := 0\<rparr>
               else dbg)
        in
        if aaOpcodeCounts dbg1 = [] then dbg1\<lparr>aaOpcodeCounts := map (\<lambda>i. (i, 0)) [0..255]\<rparr>
        else dbg1)"

text \<open>
  The test of \<open>findBreakpoint\<close> for one breakpoint of the array. \<open>getAddr\<close> is called on
  the breakpoint only when the address looked for is valid, and caches the breakpoint's
  linear address: the breakpoint as it is left is the second component.
\<close>

definition breakMatches :: "Debugger \<Rightarrow> int \<Rightarrow> DbgAddr \<Rightarrow> DbgAddr \<Rightarrow> bool \<times> DbgAddr" where
  "breakMatches dbg a dbgAddr dbgAddrBreak =
     (if a \<noteq> ADDR_INVALID dbg then
        (case getAddr dbg dbgAddrBreak False None of
           (ab, b') \<Rightarrow> (a = mapBreakpoint dbg ab, b'))
      else (sel dbgAddr = sel dbgAddrBreak \<and> off dbgAddr = off dbgAddrBreak, dbgAddrBreak))"

text \<open>
  The loop of \<open>findBreakpoint\<close> over the array, from the current index on: whether a
  breakpoint was found, whether one was removed, and the array as it is left.
\<close>

fun findLoop ::
  "Debugger \<Rightarrow> int \<Rightarrow> DbgAddr \<Rightarrow> bool \<Rightarrow> bool \<Rightarrow> DbgAddr list \<Rightarrow> bool \<times> DbgAddr list" where
  "findLoop dbg a dbgAddr fRemove fTemp [] = (False, [])"
| "findLoop dbg a dbgAddr fRemove fTemp (dbgAddrBreak # rest) =
     (case breakMatches dbg a dbgAddr dbgAddrBreak of
        (m, b') \<Rightarrow>
          if m \<and> (\<not> fTemp \<or> fTempBreak b') then
            (True, if fRemove then rest else b' # rest)
          else
            (case findLoop dbg a dbgAddr fRemove fTemp rest of
               (fFound, rest') \<Rightarrow> (fFound, b' # rest')))"

text \<open>
  \<open>findBreakpoint(aBreak, dbgAddr, fRemove, fTempBreak, fQuiet)\<close>: the result, the
  debugger and the \<open>DbgAddr\<close> passed in, with its linear address cached. Printing is left
  out, and with it \<open>fQuiet\<close>; so is the call of the Bus that drops the memory trap of a
  read or write breakpoint.
\<close>

definition findBreakpoint ::
  "Debugger \<Rightarrow> BreakKind \<Rightarrow> DbgAddr \<Rightarrow> bool \<Rightarrow> bool \<Rightarrow> bool \<times> Debugger \<times> DbgAddr" where
  "findBreakpoint dbg aBreak dbgAddr fRemove fTemp =
     (case getAddr dbg dbgAddr False None of
        (a0, dbgAddr') \<Rightarrow>
          (case findLoop dbg (mapBreakpoint dbg a0) dbgAddr' fRemove fTemp (getBreak dbg aBreak) of
             (fFound, l) \<Rightarrow>
               let dbg1 = setBreak dbg aBreak l in
               (fFound, if fFound \<and> fRemove then historyInit dbg1 else dbg1, dbgAddr')))"

text \<open>
  \<open>addBreakpoint(aBreak, dbgAddr, fTempBreak)\<close>: success, the debugger, and the \<open>DbgAddr\<close>
  as the call leaves it, which is also the object pushed on the array.
\<close>

definition addBreakpoint ::
  "Debugger \<Rightarrow> BreakKind \<Rightarrow> DbgAddr \<Rightarrow> bool \<Rightarrow> bool \<times> Debugger \<times> DbgAddr" where
  "addBreakpoint dbg aBreak dbgAddr fTemp =
     (case (if \<not> fTemp then
              (case findBreakpoint dbg aBreak dbgAddr True False of (f, d, x) \<Rightarrow> (d, x))
            else (dbg, dbgAddr)) of
        (dbg1, dbgAddr1) \<Rightarrow>
          (case (if aBreak \<noteq> Exec then
                   (case getAddr dbg1 dbgAddr1 False None of
                      (a, x) \<Rightarrow>
                        if a = ADDR_INVALID dbg1 then (False, x) else (True, x\<lparr>sel := None\<rparr>))
                 else (True, dbgAddr1)) of
             (fSuccess, dbgAddr2) \<Rightarrow>
               if fSuccess then
                 if fTemp then
                   let dbgAddr3 =
                         (if addr dbgAddr2 \<noteq> None then dbgAddr2\<lparr>sel := None\<rparr> else dbgAddr2)
                           \<lparr>fTempBreak := True\<rparr>
                   in (True, setBreak dbg1 aBreak (getBreak dbg1 aBreak @ [dbgAddr3]), dbgAddr3)
                 else
                   (True, historyInit (setBreak dbg1 aBreak (getBreak dbg1 aBreak @ [dbgAddr2])),
                    dbgAddr2)
               else (False, dbg1, dbgAddr2)))"

subsection \<open>Commands attached to a breakpoint\<close>

text \<open>
  \<open>doCommand\<close> runs any debugger command, so it is a parameter here: a function from
  the command and the debugger to the command's result and the debugger it leaves.
  \<open>a[j].indexOf("if")\<close> is 0, and so false as a condition, exactly when the command
  starts with \<open>if\<close>; likewise for \<open>else\<close>.
\<close>

type_synonym command = "string \<Rightarrow> Debugger \<Rightarrow> bool \<times> Debugger"

text \<open>The inner search \<open>for (; k < a.length; k++)\<close>, which also advances \<open>j\<close>.\<close>

function skipToElse :: "string list \<Rightarrow> nat \<Rightarrow> nat \<Rightarrow> nat \<times> nat" where
  "skipToElse a k j =
     (if k < length a then
        (if startsWith (a ! k) ''else'' then (k, j) else skipToElse a (k + 1) (j + 1))
      else (k, j))"
  by pat_completeness auto
termination
  by (relation "measure (\<lambda>(a, k, j). length a - k)") auto

declare skipToElse.simps [simp del]

lemma skipToElse_ge: "j \<le> snd (skipToElse a k j)"
proof (induction a k j rule: skipToElse.induct)
  case (1 a k j)
  then show ?case by (subst skipToElse.simps) (auto simp: le_Suc_eq)
qed

text \<open>The loop \<open>for (j = 0; j < a.length; j++)\<close>: \<open>fBreak\<close> and the debugger when it ends.\<close>

function cmdLoop :: "command \<Rightarrow> string list \<Rightarrow> nat \<Rightarrow> Debugger \<Rightarrow> bool \<times> Debugger" where
  "cmdLoop doCommand a j dbg =
     (if j < length a then
        (case doCommand (a ! j) dbg of
           (ok, dbg') \<Rightarrow>
             if \<not> ok then
               if \<not> startsWith (a ! j) ''if'' then (True, dbg')
               else
                 (case skipToElse a (j + 1) j of
                    (k, j') \<Rightarrow>
                      if k = length a then (True, dbg')
                      else cmdLoop doCommand a (j' + 1) dbg')
             else cmdLoop doCommand a (j + 1) dbg')
      else (False, dbg))"
  by pat_completeness auto
termination
proof (relation "measure (\<lambda>(doCommand, a, j, dbg). length a - j)", goal_cases)
  case 1
  then show ?case by simp
next
  case 2
  then show ?case
    using skipToElse_ge by (metis (no_types, lifting) case_prod_conv diff_less_mono2 in_measure
        le_imp_less_Suc snd_conv Suc_eq_plus1)
next
  case 3
  then show ?case by auto
qed

declare cmdLoop.simps [simp del]

definition runCommands :: "command \<Rightarrow> string list \<Rightarrow> Debugger \<Rightarrow> bool \<times> Debugger" where
  "runCommands doCommand a dbg =
     (case cmdLoop doCommand a 0 dbg of
        (fBreak, dbg') \<Rightarrow> (if \<not> isRunning (cpu dbg') then True else fBreak, dbg'))"

subsection \<open>The array that a function was passed\<close>

text \<open>
  \<open>findBreakpoint\<close>, \<open>addBreakpoint\<close> and \<open>checkBreakpoint\<close> work on the array object
  they were passed. For a caller that passes \<open>this.aBreakExec\<close> and the like, that is the
  array the field holds, as long as the field is not assigned to. \<open>checkBreakpoint\<close>
  runs commands in the middle of its loop, and \<open>bc *\<close> among them assigns new arrays to
  the fields: the loop then goes on in the array it was passed. That array is given by
  the field it was read from and its number.
\<close>

fun refBreak :: "Debugger \<Rightarrow> BreakKind \<Rightarrow> nat" where
  "refBreak dbg Exec = refBreakExec dbg"
| "refBreak dbg Read = refBreakRead dbg"
| "refBreak dbg Write = refBreakWrite dbg"

definition readArray :: "Debugger \<Rightarrow> BreakKind \<Rightarrow> nat \<Rightarrow> DbgAddr list" where
  "readArray dbg aBreak r =
     (if refBreak dbg aBreak = r then getBreak dbg aBreak else droppedArrays dbg r)"

definition writeArray :: "Debugger \<Rightarrow> BreakKind \<Rightarrow> nat \<Rightarrow> DbgAddr list \<Rightarrow> Debugger" where
  "writeArray dbg aBreak r l =
     (if refBreak dbg aBreak = r then setBreak dbg aBreak l
      else dbg\<lparr>droppedArrays := (droppedArrays dbg)(r := l)\<rparr>)"

text \<open>
  \<open>clearBreakpoints()\<close>: the three fields get new, empty arrays. The old arrays stay as
  they are, but for the linear addresses that \<open>getAddr\<close> caches in the read and write
  breakpoints on the way; the calls of the Bus are left out.
\<close>

definition clearBreakpoints :: "Debugger \<Rightarrow> Debugger" where
  "clearBreakpoints dbg =
     dbg\<lparr>droppedArrays :=
           (droppedArrays dbg)
             (refBreakExec dbg := aBreakExec dbg,
              refBreakRead dbg := map (\<lambda>b. snd (getAddr dbg b False None)) (aBreakRead dbg),
              refBreakWrite dbg := map (\<lambda>b. snd (getAddr dbg b False None)) (aBreakWrite dbg)),
         aBreakExec := [], aBreakRead := [], aBreakWrite := [],
         refBreakExec := cArrays dbg, refBreakRead := cArrays dbg + 1,
         refBreakWrite := cArrays dbg + 2, cArrays := cArrays dbg + 3,
         nSuppressBreaks := 0\<rparr>"

text \<open>
  \<open>findBreakpoint\<close> on the array that was passed: the array of the field, or an array
  that the field has dropped, which is then not \<open>this.aBreakExec\<close>.
\<close>

definition findBreakpointAt ::
  "Debugger \<Rightarrow> BreakKind \<Rightarrow> nat \<Rightarrow> DbgAddr \<Rightarrow> bool \<Rightarrow> bool \<Rightarrow> bool \<times> Debugger \<times> DbgAddr" where
  "findBreakpointAt dbg aBreak r dbgAddr fRemove fTemp =
     (if refBreak dbg aBreak = r then findBreakpoint dbg aBreak dbgAddr fRemove fTemp
      else
        (case getAddr dbg dbgAddr False None of
           (a0, dbgAddr') \<Rightarrow>
             (case findLoop dbg (mapBreakpoint dbg a0) dbgAddr' fRemove fTemp (droppedArrays dbg r) of
                (fFound, l) \<Rightarrow>
                  let dbg1 = dbg\<lparr>droppedArrays := (droppedArrays dbg)(r := l)\<rparr> in
                  (fFound, if fFound \<and> fRemove then historyInit dbg1 else dbg1, dbgAddr'))))"

subsection \<open>Checking for a breakpoint\<close>

text \<open>
  The linear address of a breakpoint as the check gets it: zapped first for a
  segmented breakpoint, then resolved and cached by \<open>getAddr\<close>. The second component is
  the breakpoint as this leaves it.
\<close>

definition resolveBreak :: "Debugger \<Rightarrow> DbgAddr \<Rightarrow> int \<times> DbgAddr" where
  "resolveBreak dbg dbgAddrBreak =
     getAddr dbg (if sel dbgAddrBreak \<noteq> None then dbgAddrBreak\<lparr>addr := None\<rparr>
                  else dbgAddrBreak) False None"

text \<open>
  The body of the loop \<open>for (i = 1; !fBreak && i < aBreak.length; i++)\<close> of
  \<open>checkBreakpoint\<close> for an index within the array: \<open>fBreak\<close>, \<open>fTempBreak\<close> and the
  debugger after it. The loop over \<open>n\<close> runs its body for the one \<open>n\<close> below \<open>nb\<close>, if
  any, with \<open>addr + n = addrBreak\<close>. The breakpoint looked at is an element of the
  array, so what is written to it is written to the array.
\<close>

definition checkOne ::
  "command \<Rightarrow> BreakKind \<Rightarrow> nat \<Rightarrow> int \<Rightarrow> int \<Rightarrow> nat \<Rightarrow> bool \<Rightarrow> Debugger \<Rightarrow> bool \<times> bool \<times> Debugger" where
  "checkOne doCommand aBreak r a nb i fTemp dbg =
     (let dbgAddrBreak = readArray dbg aBreak r ! i in
      if fTemp \<and> \<not> fTempBreak dbgAddrBreak then (False, fTemp, dbg)
      else
        (case resolveBreak dbg dbgAddrBreak of
           (a0, b) \<Rightarrow>
             let addrBreak = mapBreakpoint dbg a0;
                 dbg1 = writeArray dbg aBreak r ((readArray dbg aBreak r)[i := b])
             in
             if a \<le> addrBreak \<and> addrBreak < a + nb then
               let dbg2 = (if fTempBreak b
                           then fst (snd (findBreakpointAt dbg1 aBreak r b True True))
                           else dbg1);
                   fTemp2 = (fTempBreak b \<or> fTemp)
               in
               (case aCmds b of
                  None \<Rightarrow> (True, fTemp2, dbg2)
                | Some cmds \<Rightarrow>
                    (case runCommands doCommand cmds dbg2 of
                       (fBreak, dbg3) \<Rightarrow> (fBreak, fTemp2, dbg3)))
             else (False, fTemp, dbg1)))"

text \<open>
  The loop itself. It reads the array it was passed again at every turn, and the
  commands it runs may change that array, so nothing bounds its length: not returning
  is the value \<open>None\<close>.
\<close>

partial_function (option) checkLoop ::
  "command \<Rightarrow> BreakKind \<Rightarrow> nat \<Rightarrow> int \<Rightarrow> int \<Rightarrow> nat \<Rightarrow> bool \<Rightarrow> Debugger \<Rightarrow> (bool \<times> Debugger) option" where
  "checkLoop doCommand aBreak r a nb i fTemp dbg =
     (if i < length (readArray dbg aBreak r) then
        (case checkOne doCommand aBreak r a nb i fTemp dbg of
           (fBreak, fTemp', dbg') \<Rightarrow>
             if fBreak then Some (True, dbg')
             else checkLoop doCommand aBreak r a nb (i + 1) fTemp' dbg')
      else Some (False, dbg))"

text \<open>
  \<open>checkBreakpoint(addr, nb, aBreak, fTempBreak)\<close>, called with the array of one of
  the three fields: the counter \<open>nSuppressBreaks\<close> is tested, then raised, and lowered
  again at the end.
\<close>

definition checkBreakpoint ::
  "command \<Rightarrow> Debugger \<Rightarrow> int \<Rightarrow> int \<Rightarrow> BreakKind \<Rightarrow> bool \<Rightarrow> (bool \<times> Debugger) option" where
  "checkBreakpoint doCommand dbg a nb aBreak fTemp =
     (let dbg1 = dbg\<lparr>nSuppressBreaks := nSuppressBreaks dbg + 1\<rparr> in
      map_option (\<lambda>(fBreak, d). (fBreak, d\<lparr>nSuppressBreaks := nSuppressBreaks d - 1\<rparr>))
        (if nSuppressBreaks dbg = 0 then
           let a' = mapBreakpoint dbg1 a in
           if messageEnabled_INT_HALT dbg1 \<and> probeAddr (cpu dbg1) a' = Some (OPCODE_INT3 dbg1)
           then Some (True, dbg1)
           else checkLoop doCommand aBreak (refBreak dbg1 aBreak) a' nb 0 fTemp dbg1
         else Some (False, dbg1)))"

section \<open>Instruction history and the trace log\<close>

datatype error = TypeError

text \<open>
  The second half of \<open>checkInstruction\<close>: the opcode count and the history slot at the
  cursor. Indexing an array outside its bounds gives \<open>undefined\<close>, and the next access
  to that raises.
\<close>

definition recordInstruction :: "Debugger \<Rightarrow> int \<Rightarrow> int \<Rightarrow> error + Debugger" where
  "recordInstruction dbg a nState =
     (if nState \<ge> 0 \<and> aaOpcodeCounts dbg \<noteq> [] then
        let dbg1 = dbg\<lparr>cOpcodes := cOpcodes dbg + 1\<rparr> in
        (case probeAddr (cpu dbg1) a of
           None \<Rightarrow> Inr dbg1
         | Some bOpcode \<Rightarrow>
             if 0 \<le> bOpcode \<and> nat bOpcode < length (aaOpcodeCounts dbg1) then
               let counts = aaOpcodeCounts dbg1;
                   e = counts ! nat bOpcode;
                   dbg2 = dbg1\<lparr>aaOpcodeCounts := counts[nat bOpcode := (fst e, snd e + 1)]\<rparr>
               in
               if iOpcodeHistory dbg2 < length (aOpcodeHistory dbg2) then
                 let dbgAddr = aOpcodeHistory dbg2 ! iOpcodeHistory dbg2;
                     dbgAddr' = setAddr dbg2 dbgAddr (getIP (cpu dbg2)) (Some (getCS (cpu dbg2)))
                                  None 0 None None;
                     i' = iOpcodeHistory dbg2 + 1
                 in Inr (dbg2\<lparr>aOpcodeHistory := (aOpcodeHistory dbg2)[iOpcodeHistory dbg2 := dbgAddr'],
                               iOpcodeHistory := (if i' = length (aOpcodeHistory dbg2) then 0 else i')\<rparr>)
               else Inl TypeError
             else Inl TypeError)
      else Inr dbg)"

text \<open>
  \<open>checkInstruction(addr, nState)\<close>: the breakpoint check when running, then the
  record of the instruction. The result is the answer and the debugger, an error, or
  \<open>None\<close> when the breakpoint check does not return.
\<close>

definition checkInstruction ::
  "command \<Rightarrow> Debugger \<Rightarrow> int \<Rightarrow> int \<Rightarrow> (error + bool \<times> Debugger) option" where
  "checkInstruction doCommand dbg a nState =
     (if nState > 0 then
        (case checkBreakpoint doCommand dbg a 1 Exec False of
           None \<Rightarrow> None
         | Some (fBreak, dbg1) \<Rightarrow>
             if fBreak then Some (Inr (True, dbg1))
             else if MAXDEBUG dbg1 \<and> js_and (regPS (cpu dbg1)) PS_IF = 0
                     \<and> nIOPL (cpu dbg1) < nCPL (cpu dbg1)
             then Some (Inr (True, dbg1))
             else Some (map_sum id (\<lambda>d. (False, d)) (recordInstruction dbg1 a nState)))
      else Some (map_sum id (\<lambda>d. (False, d)) (recordInstruction dbg a nState)))"

text \<open>\<open>a[i] = v\<close> on a JavaScript array: an index past the end extends the array with holes.\<close>

definition arraySet :: "'a option list \<Rightarrow> nat \<Rightarrow> 'a \<Rightarrow> 'a option list" where
  "arraySet xs i v =
     (if i < length xs then xs[i := Some v] else xs @ replicate (i - length xs) None @ [Some v])"

text \<open>
  \<open>traceLog(prop, ...)\<close>: the line \<open>s\<close> that the function formats from its arguments
  and the CPU is taken as given.
\<close>

definition traceLog :: "Debugger \<Rightarrow> string \<Rightarrow> string \<Rightarrow> Debugger" where
  "traceLog dbg prop s =
     (if DEBUG dbg then
        (case traceEnabled dbg of
           None \<Rightarrow> dbg
         | Some flags \<Rightarrow>
             if map_of flags prop = Some True then
               let buf = (if aTraceBuffer dbg = [] then replicate (TRACE_LIMIT dbg) None
                          else aTraceBuffer dbg);
                   buf' = arraySet buf (iTraceBuffer dbg) s;
                   i' = iTraceBuffer dbg + 1;
                   dbg1 = dbg\<lparr>aTraceBuffer := buf', iTraceBuffer := i'\<rparr>
               in
               if i' \<ge> length buf' then dbg1\<lparr>traceEnabled := Some (map (\<lambda>(p, f). (p, False)) flags)\<rparr>
               else dbg1
             else dbg)
      else dbg)"


section \<open>The evaluation of the tokens of an expression\<close>

text \<open>
  What \<open>parseExpression\<close> does once the expression is split: the loop over the tokens,
  the evaluation at the end, and the test of its outcome.
\<close>

definition evalTokens :: "Debugger \<Rightarrow> string list \<Rightarrow> int option" where
  "evalTokens dbg asValues =
     (case parseTokens dbg [] [] asValues of
        (fError, aVals, aOps) \<Rightarrow>
          (case evalExpression aVals aOps None of
             (ok, aVals', aOps') \<Rightarrow>
               if \<not> fError \<and> ok \<and> length aVals' = 1 then Some (hd aVals') else None))"

section \<open>The outcome of attached commands, in the words of the specification\<close>


section \<open>The turns of the breakpoint check\<close>

text \<open>
  A breakpoint is looked at by a check of the \<open>nb\<close> addresses from \<open>a\<close> on when the
  check is not restricted to temporary breakpoints or the breakpoint is temporary; it
  matches when its address, resolved and mapped, is one of those addresses.
\<close>

definition hitsAt :: "Debugger \<Rightarrow> int \<Rightarrow> int \<Rightarrow> bool \<Rightarrow> DbgAddr \<Rightarrow> bool" where
  "hitsAt dbg a nb fTemp b \<longleftrightarrow>
     (fTemp \<longrightarrow> fTempBreak b)
     \<and> a \<le> mapBreakpoint dbg (fst (resolveBreak dbg b))
     \<and> mapBreakpoint dbg (fst (resolveBreak dbg b)) < a + nb"



section \<open>Counting the breakpoints that match an address\<close>

text \<open>
  The number of breakpoints of a list that \<open>findBreakpoint\<close> would accept for an
  address when it is not restricted to temporary breakpoints, and the relation
  between two debugger states that resolve every address alike.
\<close>

definition matchCount :: "Debugger \<Rightarrow> DbgAddr \<Rightarrow> DbgAddr list \<Rightarrow> nat" where
  "matchCount dbg x l =
     length (filter (\<lambda>b. fst (breakMatches dbg (mapBreakpoint dbg (fst (getAddr dbg x False None)))
                                 (snd (getAddr dbg x False None)) b)) l)"

definition sameMachine :: "Debugger \<Rightarrow> Debugger \<Rightarrow> bool" where
  "sameMachine d' d \<longleftrightarrow>
     cpu d' = cpu d \<and> I386 d' = I386 d \<and> nSuppressBreaks d' = nSuppressBreaks d
     \<and> loadReal d' = loadReal d \<and> probeDesc d' = probeDesc d
     \<and> ADDR_INVALID d' = ADDR_INVALID d \<and> maskAddr d' = maskAddr d"

section \<open>A sample machine\<close>

text \<open>
  A real-mode machine used to run the definitions on concrete inputs: 16-bit segments
  with base 0, whose debugger read check accepts the bytes below the 64K limit.
\<close>

definition isHexDigit :: "char \<Rightarrow> bool" where
  "isHexDigit c = (digitValue c \<noteq> None)"

definition sampleSeg :: X86Seg where
  "sampleSeg =
     \<lparr>seg_limit = 0xffff, seg_maskAddr = 0xffff, seg_offMax = 0x10000, seg_sizeData = 2,
      seg_sizeAddr = 2,
      seg_checkReadDebugger = (\<lambda>off nb. if 0 \<le> off \<and> off + nb \<le> 0x10000 then off else -1),
      seg_checkWriteDebugger = (\<lambda>off nb. if 0 \<le> off \<and> off + nb \<le> 0x10000 then off else -1)\<rparr>"

definition sampleCPU :: X86CPU where
  "sampleCPU =
     \<lparr>regEAX = 0x12345678, regECX = 0, regEDX = 0, regEBX = 0, regEBP = 0, regESI = 0,
      regEDI = 0, regCR0 = 0, regCR1 = 0, regCR2 = 0, regCR3 = 0, regPS = 0x202, nIOPL = 0,
      nCPL = 0, getSP = 0, getIP = 0x100, getPS = 0x202, getES = 0, getCS = 0, getSS = 0,
      getDS = 0, getFS = 0, getGS = 0, model = 80286,
      segCS = sampleSeg, segDS = sampleSeg, segES = sampleSeg, segSS = sampleSeg,
      segFS = sampleSeg, segGS = sampleSeg, isRunning = True, probeAddr = (\<lambda>a. Some 0x90)\<rparr>"

definition sampleDebugger :: Debugger where
  "sampleDebugger =
     \<lparr>DEBUG = True, MAXDEBUG = False, I386 = True, ADDR_INVALID = -1, OPCODE_INT3 = 0xCC,
      HISTORY_LIMIT = 1000, TRACE_LIMIT = 100000, cpu = sampleCPU, maskAddr = 0xffffff,
      loadReal = (\<lambda>s. sampleSeg), probeDesc = (\<lambda>s. sampleSeg), nSuppressBreaks = 0,
      aBreakExec = [], aBreakRead = [], aBreakWrite = [],
      refBreakExec = 1, refBreakRead = 2, refBreakWrite = 3, cArrays = 4,
      droppedArrays = (\<lambda>r. []),
      messageEnabled_INT = False, messageEnabled_INT_HALT = False,
      aVariables = Map.empty, cOpcodes = 0, aOpcodeHistory = [], iOpcodeHistory = 0,
      aaOpcodeCounts = [], traceEnabled = None, iTraceBuffer = 0, aTraceBuffer = []\<rparr>"

text \<open>The real-mode address \<open>0000:FFFF\<close>, the last byte of its segment, resolved.\<close>

definition sampleAddr :: DbgAddr where
  "sampleAddr =
     \<lparr>off = 0xffff, sel = Some 0, addr = Some 0xffff, addrType = 0x01, fData32 = False,
      fAddr32 = False, cOverrides = None, fComplete = None, fTempBreak = False, sCmd = None,
      aCmds = None\<rparr>"

text \<open>The same machine with a code segment that ends at offset \<open>0x0FFF\<close>.\<close>

definition smallSegDebugger :: Debugger where
  "smallSegDebugger =
     sampleDebugger\<lparr>cpu := sampleCPU\<lparr>segCS := sampleSeg\<lparr>seg_limit := 0xfff, seg_offMax := 0x1000\<rparr>\<rparr>\<rparr>"

text \<open>
  A breakpoint on the linear address 16 bytes below the top of the 24-bit address
  space of the sample machine, and a command interpreter that knows \<open>h\<close> (halt),
  \<open>if 0\<close> (a condition that fails) and \<open>bc *\<close> (clear all breakpoints) and accepts
  everything else.
\<close>

definition resetBreak :: DbgAddr where
  "resetBreak = emptyAddr\<lparr>addr := Some 0xfffff0, addrType := 0x01\<rparr>"

definition sampleCommand :: "string \<Rightarrow> Debugger \<Rightarrow> bool \<times> Debugger" where
  "sampleCommand s dbg =
     (if s = ''h'' then (True, dbg\<lparr>cpu := (cpu dbg)\<lparr>isRunning := False\<rparr>\<rparr>)
      else if s = ''if 0'' then (False, dbg)
      else if s = ''bc *'' then (True, clearBreakpoints dbg)
      else (True, dbg))"

text \<open>
  The sample machine with the 32-bit address mask of an 80386, all ones, as the 32-bit
  integer -1; the address \<open>0xFFFFFFFF\<close> is then -1 as well, which is also the value of
  \<open>ADDR_INVALID\<close>.
\<close>

definition wideDebugger :: Debugger where
  "wideDebugger = sampleDebugger\<lparr>maskAddr := - 1\<rparr>"


text \<open>
  The sample machine with a permanent and a temporary breakpoint on the same linear
  address, as after \<open>bp\<close> and then \<open>g\<close> on that address.
\<close>

definition twoBreaksDebugger :: Debugger where
  "twoBreaksDebugger =
     sampleDebugger\<lparr>aBreakExec := [resetBreak, resetBreak\<lparr>fTempBreak := True\<rparr>]\<rparr>"

text \<open>
  The sample machine with its instruction history allocated and filled: the 1000 slots
  hold the addresses \<open>0000:0000\<close> to \<open>0000:03E7\<close> as \<open>setAddr\<close> writes them, the
  cursor is back at slot 0, and two tracing flags are on. The same machine one entry
  before the end of a trace log of three entries.
\<close>

definition filledHistory :: "DbgAddr list" where
  "filledHistory =
     map (\<lambda>i. newAddr sampleDebugger (int i) (Some 0) None 0 None None) [0..<1000]"

definition freshCounts :: "(int \<times> int) list" where
  "freshCounts = map (\<lambda>i. (i, 0)) [0..255]"

definition fullHistoryDebugger :: Debugger where
  "fullHistoryDebugger =
     sampleDebugger\<lparr>aOpcodeHistory := filledHistory, iOpcodeHistory := 0,
                    aaOpcodeCounts := freshCounts, cOpcodes := 1000,
                    traceEnabled := Some [(''ROLB'', True), (''SHLB'', True)]\<rparr>"

definition traceDebugger :: Debugger where
  "traceDebugger =
     sampleDebugger\<lparr>TRACE_LIMIT := 3, aTraceBuffer := [Some ''a'', Some ''b'', None],
                    iTraceBuffer := 2,
                    traceEnabled := Some [(''ROLB'', True), (''SHLB'', True)]\<rparr>"

section \<open>Properties of the expression evaluator\<close>

lemma isHexDigit_set: "isHexDigit c \<longleftrightarrow> c \<in> set ''0123456789abcdefABCDEF''"
  unfolding isHexDigit_def digitValue_def
  by (simp only: map_of_eq_None_iff) simp

lemma toUpperChar_table:
  "list_all (\<lambda>c. toUpperChar c \<in> set ''0123456789ABCDEF'') ''0123456789abcdefABCDEF''"
  by code_simp

lemma toUpperChar_hex: "isHexDigit c \<Longrightarrow> toUpperChar c \<in> set ''0123456789ABCDEF''"
  using toUpperChar_table unfolding isHexDigit_set list_all_iff by blast

lemma REGS_table:
  "list_all (\<lambda>r. case r of None \<Rightarrow> True
                      | Some n \<Rightarrow> list_ex (\<lambda>c. c \<notin> set ''0123456789ABCDEF'') n) REGS"
  by code_simp

lemma REGS_not_hex: "Some n \<in> set REGS \<Longrightarrow> \<exists>c\<in>set n. c \<notin> set ''0123456789ABCDEF''"
proof -
  assume "Some n \<in> set REGS"
  with REGS_table have "list_ex (\<lambda>c. c \<notin> set ''0123456789ABCDEF'') n"
    unfolding list_all_iff by force
  then show ?thesis unfolding list_ex_iff .
qed

lemma indexFrom_mem: "indexFrom i xs t \<noteq> -1 \<Longrightarrow> 0 \<le> i \<Longrightarrow> t \<in> set xs"
  by (induction xs arbitrary: i) (auto split: if_splits)

lemma getRegIndex_hex:
  assumes "\<forall>c\<in>set s. isHexDigit c"
  shows "getRegIndex s = -1"
proof (rule ccontr)
  assume "getRegIndex s \<noteq> -1"
  then have "Some (toUpperCase s) \<in> set REGS"
    unfolding getRegIndex_def usr_indexOf_def by (rule indexFrom_mem) simp
  then obtain c where "c \<in> set (toUpperCase s)" "c \<notin> set ''0123456789ABCDEF''"
    using REGS_not_hex by blast
  then show False using assms toUpperChar_hex unfolding toUpperCase_def by auto
qed

lemma parseDigits_hex:
  "\<forall>c\<in>set s. isHexDigit c \<Longrightarrow> \<exists>n. parseDigits 16 acc s = Some n"
proof (induction s arbitrary: acc)
  case Nil
  then show ?case by simp
next
  case (Cons c s)
  from Cons.prems have "isHexDigit c" by simp
  then obtain d where d: "digitValue c = Some d" unfolding isHexDigit_def by auto
  have "d < 16" using d unfolding digitValue_def by (auto split: if_splits)
  with d Cons show ?case by simp
qed

lemma str_parseInt_hex:
  assumes "s \<noteq> []" "\<forall>c\<in>set s. isHexDigit c"
  shows "\<exists>n. str_parseInt s = Some n"
proof -
  have "last s \<in> set s" using assms(1) by simp
  then have "isHexDigit (last s)" using assms(2) by blast
  then have "last s \<noteq> CHR ''.''" unfolding isHexDigit_set by auto
  moreover obtain n where "parseDigits 16 0 s = Some n"
    using parseDigits_hex[OF assms(2)] by blast
  ultimately show ?thesis using assms(1) by (simp add: str_parseInt_def)
qed

text \<open>
  C9. A bare value token is resolved in this order: a register name first (and then the
  result is that register's value, whatever the variables hold), then a user variable,
  and only then a numeric literal. No register name consists of hexadecimal digits
  only, so a variable whose name is a string of hexadecimal digits is returned in
  place of the number that the same token would otherwise denote.
\<close>

theorem parseValue_resolution_order:
  "(0 \<le> getRegIndex s \<longrightarrow>
      parseValue dbg (Some s) = getRegValue (I386 dbg) (cpu dbg) (getRegIndex s))
   \<and> (getRegIndex s < 0 \<longrightarrow> aVariables dbg s = Some v \<longrightarrow> parseValue dbg (Some s) = Some v)
   \<and> (getRegIndex s < 0 \<longrightarrow> aVariables dbg s = None \<longrightarrow>
        parseValue dbg (Some s) = str_parseInt s)
   \<and> (s \<noteq> [] \<longrightarrow> (\<forall>c\<in>set s. isHexDigit c) \<longrightarrow> aVariables dbg s = Some v \<longrightarrow>
        (\<exists>n. str_parseInt s = Some n) \<and> parseValue dbg (Some s) = Some v)"
  using getRegIndex_hex[of s] str_parseInt_hex[of s]
  by (auto simp: parseValue_def getVariable_def Let_def)

theorem parseValue_resolution_order_witness:
  "(\<exists>n. str_parseInt ''ff'' = Some n)
   \<and> parseValue (sampleDebugger\<lparr>aVariables := [''ff'' \<mapsto> 7]\<rparr>) (Some ''ff'') = Some 7
   \<and> parseValue (sampleDebugger\<lparr>aVariables := [''ax'' \<mapsto> 7]\<rparr>) (Some ''ax'')
       = getRegValue True sampleCPU 8
   \<and> parseValue sampleDebugger (Some ''1f'') = str_parseInt ''1f''"
proof -
  have h1: "''ff'' \<noteq> []" by simp
  have h2: "\<forall>c\<in>set ''ff''. isHexDigit c" by (simp add: isHexDigit_set)
  have h3: "aVariables (sampleDebugger\<lparr>aVariables := [''ff'' \<mapsto> 7]\<rparr>) ''ff'' = Some 7" by simp
  have h4: "getRegIndex ''ax'' = 8" by code_simp
  have h5: "getRegIndex ''1f'' < 0" by code_simp
  have h6: "aVariables sampleDebugger ''1f'' = None" by (simp add: sampleDebugger_def)
  have a: "(\<exists>n. str_parseInt ''ff'' = Some n)
     \<and> parseValue (sampleDebugger\<lparr>aVariables := [''ff'' \<mapsto> 7]\<rparr>) (Some ''ff'') = Some 7"
    using parseValue_resolution_order
      [of "''ff''" "sampleDebugger\<lparr>aVariables := [''ff'' \<mapsto> 7]\<rparr>" 7] h1 h2 h3
    by blast
  have b: "parseValue (sampleDebugger\<lparr>aVariables := [''ax'' \<mapsto> 7]\<rparr>) (Some ''ax'')
       = getRegValue True sampleCPU 8"
    using parseValue_resolution_order
      [of "''ax''" "sampleDebugger\<lparr>aVariables := [''ax'' \<mapsto> 7]\<rparr>" 7] h4
    by (simp add: sampleDebugger_def)
  have c: "parseValue sampleDebugger (Some ''1f'') = str_parseInt ''1f''"
    using parseValue_resolution_order [of "''1f''" sampleDebugger 0] h5 h6 by blast
  from a b c show ?thesis by blast
qed

lemma evalLoop_ops_empty:
  "fst (evalLoop aVals aOps (- 1 - int n)) \<Longrightarrow> snd (snd (evalLoop aVals aOps (- 1 - int n))) = []"
proof (induction aOps arbitrary: aVals n)
  case Nil
  then show ?case by simp
next
  case (Cons chOp aOps)
  have eq: "- 1 - int n - 1 = - 1 - int (Suc n)" by simp
  show ?case
  proof (cases aVals)
    case Nil
    with Cons.prems show ?thesis by simp
  next
    case c1: (Cons val2 r)
    show ?thesis
    proof (cases r)
      case Nil
      with c1 Cons.prems show ?thesis by simp
    next
      case c2: (Cons val1 rest)
      show ?thesis
      proof (cases "binOp chOp val1 val2")
        case None
        with c1 c2 Cons.prems show ?thesis by simp
      next
        case (Some r')
        with c1 c2 Cons.prems Cons.IH[of "toInt32 r' # rest" "Suc n"]
        show ?thesis by (simp add: eq)
      qed
    qed
  qed
qed

lemmas evaluate_expression =
  parseExpression_def parseReference_def js_split_def splitLoop.simps regExp_def startsWith_def
  substring_def str_trim_def isSpace_def parseValue_def getRegIndex_def usr_indexOf_def REGS_def
  toUpperCase_def toUpperChar_def getVariable_def str_parseInt_def digitValue_def
  pushOperator_def precLess_def aBinOpPrecedence_def evalExpression_def binOp_def toInt32_def
  js_mul_def fl53_def bitlen.simps isLineTerminator_def js_or_def js_xor_def js_trunc_div_def

lemma parseExpression_evalTokens:
  "s \<noteq> [] \<Longrightarrow> parseExpression dbg substitute (Some s)
      = evalTokens dbg (js_split regExp (parseReference substitute s))"
  by (simp add: parseExpression_def evalTokens_def)

lemma two_operators:
  assumes v: "str_trim sA \<noteq> []" "parseValue dbg (Some (str_trim sA)) = Some vA"
             "str_trim sB \<noteq> []" "parseValue dbg (Some (str_trim sB)) = Some vB"
             "str_trim sC \<noteq> []" "parseValue dbg (Some (str_trim sC)) = Some vC"
    and p: "aBinOpPrecedence opA = Some pA" "aBinOpPrecedence opB = Some pB"
  shows "pB < pA \<Longrightarrow> binOp opA vA vB = Some rA \<Longrightarrow> binOp opB (toInt32 rA) vC = Some rB \<Longrightarrow>
           evalTokens dbg [sA, opA, sB, opB, sC] = Some (toInt32 rB)"
    and "\<not> pB < pA \<Longrightarrow> binOp opB vB vC = Some rA \<Longrightarrow> binOp opA vA (toInt32 rA) = Some rB \<Longrightarrow>
           evalTokens dbg [sA, opA, sB, opB, sC] = Some (toInt32 rB)"
  using v p
  by (simp_all add: evalTokens_def Let_def pushOperator_def precLess_def evalExpression_def)

text \<open>
  C8, as stated, fails: the evaluator does not honor the precedence table once two
  operators are pending. In \<open>2*3*4+1\<close> the \<open>+\<close> finds two \<open>*\<close> on the stack and
  reduces one of them only, so that \<open>2\<close> and the other \<open>*\<close> stay below the \<open>+\<close>; the
  evaluation at the end of the input then adds first and multiplies last, which gives
  \<open>2*(12+1)\<close>, not \<open>2*3*4+1\<close>.
\<close>

theorem parseExpression_precedence_counterexample:
  "parseExpression sampleDebugger (\<lambda>s. s) (Some ''2*3*4+1'') = Some 26
   \<and> parseExpression sampleDebugger (\<lambda>s. s) (Some ''2*3*4+1'') \<noteq> Some (2 * 3 * 4 + 1)
   \<and> parseTokens sampleDebugger [] [] [''2'', ''*'', ''3'', ''*'', ''4'', ''+'', ''1'']
       = (False, [1, 12, 2], [''+'', ''*''])"
  by (simp add: evaluate_expression sampleDebugger_def)

text \<open>
  C8, amended. The precedence table is consulted only between an incoming operator and
  the operator on top of the stack. The incoming operator makes the evaluator reduce
  once (pop two values and one operator, apply, push the result), whatever else is
  pending, when its precedence is strictly lower than that of the operator on top;
  otherwise, and on an empty stack, it is only pushed. The evaluation at the end of the
  input reduces from the top of the stack down and leaves no operator when it succeeds.

  So an expression of two operators, \<open>a op1 b op2 c\<close>, whose reductions succeed is
  evaluated as \<open>(a op1 b) op2 c\<close> when \<open>op2\<close> has strictly lower precedence than \<open>op1\<close>,
  and as \<open>a op1 (b op2 c)\<close> otherwise. With no variables named 1, 2, 3 or 4, \<open>2+3*4\<close>
  is 14, \<open>2*3+4\<close> is 10 and \<open>2-3-4\<close>, where the precedences are equal and nothing is
  reduced before the end, is 3; with more operators pending the table is not followed:
  \<open>2*3*4+1\<close> is 26 and \<open>1-2*3*4+1\<close> is -25.
\<close>

theorem parseExpression_precedence:
  "(aBinOpPrecedence sOp = Some a \<longrightarrow> aBinOpPrecedence sTop = Some b \<longrightarrow>
      pushOperator aVals (sTop # aOps) sOp =
        (if a < b
         then (case evalExpression aVals (sTop # aOps) (Some 1) of
                 (ok, vs, os) \<Rightarrow> (vs, sOp # os))
         else (aVals, sOp # sTop # aOps)))
   \<and> pushOperator aVals [] sOp = (aVals, [sOp])
   \<and> (binOp sTop valA valB = Some r \<longrightarrow>
        evalExpression (valB # valA # aVals) (sTop # aOps) (Some 1)
          = (True, toInt32 r # aVals, aOps))
   \<and> (fst (evalExpression aVals aOps None) \<longrightarrow> snd (snd (evalExpression aVals aOps None)) = [])
   \<and> (s \<noteq> [] \<longrightarrow>
        parseExpression dbg substitute (Some s)
          = evalTokens dbg (js_split regExp (parseReference substitute s)))
   \<and> (str_trim sA \<noteq> [] \<longrightarrow> parseValue dbg (Some (str_trim sA)) = Some vA \<longrightarrow>
       str_trim sB \<noteq> [] \<longrightarrow> parseValue dbg (Some (str_trim sB)) = Some vB \<longrightarrow>
       str_trim sC \<noteq> [] \<longrightarrow> parseValue dbg (Some (str_trim sC)) = Some vC \<longrightarrow>
       aBinOpPrecedence opA = Some pA \<longrightarrow> aBinOpPrecedence opB = Some pB \<longrightarrow>
         (pB < pA \<longrightarrow> binOp opA vA vB = Some rA \<longrightarrow> binOp opB (toInt32 rA) vC = Some rB \<longrightarrow>
            evalTokens dbg [sA, opA, sB, opB, sC] = Some (toInt32 rB))
         \<and> (\<not> pB < pA \<longrightarrow> binOp opB vB vC = Some rA \<longrightarrow>
              binOp opA vA (toInt32 rA) = Some rB \<longrightarrow>
                evalTokens dbg [sA, opA, sB, opB, sC] = Some (toInt32 rB)))
   \<and> (aVariables dbg ''1'' = None \<longrightarrow> aVariables dbg ''2'' = None \<longrightarrow>
        aVariables dbg ''3'' = None \<longrightarrow> aVariables dbg ''4'' = None \<longrightarrow>
          parseExpression dbg substitute (Some ''2+3*4'') = Some 14
          \<and> parseExpression dbg substitute (Some ''2*3+4'') = Some 10
          \<and> parseExpression dbg substitute (Some ''2-3-4'') = Some 3
          \<and> parseExpression dbg substitute (Some ''2*3*4+1'') = Some 26
          \<and> parseExpression dbg substitute (Some ''1-2*3*4+1'') = Some (- 25))"
proof (intro conjI impI)
  assume "aBinOpPrecedence sOp = Some a" "aBinOpPrecedence sTop = Some b"
  then show "pushOperator aVals (sTop # aOps) sOp =
        (if a < b
         then (case evalExpression aVals (sTop # aOps) (Some 1) of
                 (ok, vs, os) \<Rightarrow> (vs, sOp # os))
         else (aVals, sOp # sTop # aOps))"
    by (simp add: pushOperator_def precLess_def)
next
  show "pushOperator aVals [] sOp = (aVals, [sOp])" by (simp add: pushOperator_def)
next
  assume "binOp sTop valA valB = Some r"
  then show "evalExpression (valB # valA # aVals) (sTop # aOps) (Some 1)
          = (True, toInt32 r # aVals, aOps)"
    by (cases aOps) (simp_all add: evalExpression_def)
next
  assume "fst (evalExpression aVals aOps None)"
  then show "snd (snd (evalExpression aVals aOps None)) = []"
    using evalLoop_ops_empty[of aVals aOps 0] by (simp add: evalExpression_def)
next
  assume "s \<noteq> []"
  then show "parseExpression dbg substitute (Some s)
          = evalTokens dbg (js_split regExp (parseReference substitute s))"
    by (rule parseExpression_evalTokens)
next
  assume h: "str_trim sA \<noteq> []" "parseValue dbg (Some (str_trim sA)) = Some vA"
    "str_trim sB \<noteq> []" "parseValue dbg (Some (str_trim sB)) = Some vB"
    "str_trim sC \<noteq> []" "parseValue dbg (Some (str_trim sC)) = Some vC"
    "aBinOpPrecedence opA = Some pA" "aBinOpPrecedence opB = Some pB"
  {
    assume "pB < pA" "binOp opA vA vB = Some rA" "binOp opB (toInt32 rA) vC = Some rB"
    then show "evalTokens dbg [sA, opA, sB, opB, sC] = Some (toInt32 rB)"
      by (rule two_operators(1) [OF h])
  }
  {
    assume "\<not> pB < pA" "binOp opB vB vC = Some rA" "binOp opA vA (toInt32 rA) = Some rB"
    then show "evalTokens dbg [sA, opA, sB, opB, sC] = Some (toInt32 rB)"
      by (rule two_operators(2) [OF h])
  }
next
  assume v: "aVariables dbg ''1'' = None" "aVariables dbg ''2'' = None"
    "aVariables dbg ''3'' = None" "aVariables dbg ''4'' = None"
  show "parseExpression dbg substitute (Some ''2+3*4'') = Some 14"
    using v by (simp add: evaluate_expression)
  show "parseExpression dbg substitute (Some ''2*3+4'') = Some 10"
    using v by (simp add: evaluate_expression)
  show "parseExpression dbg substitute (Some ''2-3-4'') = Some 3"
    using v by (simp add: evaluate_expression)
  show "parseExpression dbg substitute (Some ''2*3*4+1'') = Some 26"
    using v by (simp add: evaluate_expression)
  show "parseExpression dbg substitute (Some ''1-2*3*4+1'') = Some (- 25)"
    using v by (simp add: evaluate_expression)
qed

theorem parseExpression_precedence_witness:
  "pushOperator [3, 2] [''*''] ''+'' = ([6], [''+''])
   \<and> pushOperator [3, 2] [''+''] ''*'' = ([3, 2], [''*'', ''+''])
   \<and> snd (snd (evalExpression [4, 3, 2] [''*'', ''+''] None)) = []
   \<and> evalTokens sampleDebugger [''2'', ''*'', ''3'', ''+'', ''4''] = Some 10
   \<and> evalTokens sampleDebugger [''2'', ''+'', ''3'', ''*'', ''4''] = Some 14
   \<and> parseExpression sampleDebugger (\<lambda>s. s) (Some ''2+3*4'') = Some 14
   \<and> parseExpression sampleDebugger (\<lambda>s. s) (Some ''2*3*4+1'') = Some 26"
proof -
  have p1: "aBinOpPrecedence ''+'' = Some 8" by (simp add: aBinOpPrecedence_def)
  have p2: "aBinOpPrecedence ''*'' = Some 9" by (simp add: aBinOpPrecedence_def)
  have b: "binOp ''*'' 2 3 = Some 6" by (simp add: binOp_def js_mul_def fl53_def bitlen.simps)
  have b1: "binOp ''+'' (toInt32 6) 4 = Some 10" "binOp ''*'' 3 4 = Some 12"
    "binOp ''+'' 2 (toInt32 12) = Some 14"
    by (simp_all add: binOp_def js_mul_def fl53_def bitlen.simps toInt32_def)
  have t: "toInt32 6 = 6" "toInt32 10 = 10" "toInt32 14 = 14"
    by (simp_all add: toInt32_def)
  have f: "fst (evalExpression [4, 3, 2] [''*'', ''+''] None)"
    by (simp add: evalExpression_def binOp_def js_mul_def fl53_def bitlen.simps toInt32_def)
  have v: "aVariables sampleDebugger ''1'' = None" "aVariables sampleDebugger ''2'' = None"
    "aVariables sampleDebugger ''3'' = None" "aVariables sampleDebugger ''4'' = None"
    by (simp_all add: sampleDebugger_def)
  have n: "str_trim ''2'' \<noteq> []" "str_trim ''3'' \<noteq> []" "str_trim ''4'' \<noteq> []"
    by (simp_all add: str_trim_def isSpace_def)
  have pv: "parseValue sampleDebugger (Some (str_trim ''2'')) = Some 2"
    "parseValue sampleDebugger (Some (str_trim ''3'')) = Some 3"
    "parseValue sampleDebugger (Some (str_trim ''4'')) = Some 4"
    using v by (simp_all add: evaluate_expression)
  note T = parseExpression_precedence
  note rule1 = T [THEN conjunct1, rule_format]
  note rule3 = T [THEN conjunct2, THEN conjunct2, THEN conjunct1, rule_format]
  note rule4 = T [THEN conjunct2, THEN conjunct2, THEN conjunct2, THEN conjunct1, rule_format]
  note rule6 = T [THEN conjunct2, THEN conjunct2, THEN conjunct2, THEN conjunct2, THEN conjunct2,
                  THEN conjunct1, rule_format]
  note rule7 = T [THEN conjunct2, THEN conjunct2, THEN conjunct2, THEN conjunct2, THEN conjunct2,
                  THEN conjunct2, rule_format]
  have e: "evalExpression [3, 2] [''*''] (Some 1) = (True, [6], [])"
    using rule3 [where sTop = "''*''" and aVals = "[]" and aOps = "[]", OF b] by (simp only: t)
  have "pushOperator [3, 2] [''*''] ''+'' =
          (if (8 :: nat) < 9
           then (case evalExpression [3, 2] [''*''] (Some 1) of (ok, vs, os) \<Rightarrow> (vs, ''+'' # os))
           else ([3, 2], [''+'', ''*'']))"
    by (rule rule1 [OF p1 p2])
  then have 1: "pushOperator [3, 2] [''*''] ''+'' = ([6], [''+''])" by (simp add: e)
  have "pushOperator [3, 2] [''+''] ''*'' =
          (if (9 :: nat) < 8
           then (case evalExpression [3, 2] [''+''] (Some 1) of (ok, vs, os) \<Rightarrow> (vs, ''*'' # os))
           else ([3, 2], [''*'', ''+'']))"
    by (rule rule1 [OF p2 p1])
  then have 2: "pushOperator [3, 2] [''+''] ''*'' = ([3, 2], [''*'', ''+''])" by simp
  have 3: "snd (snd (evalExpression [4, 3, 2] [''*'', ''+''] None)) = []"
    by (rule rule4 [OF f])
  have 4: "parseExpression sampleDebugger (\<lambda>s. s) (Some ''2+3*4'') = Some 14"
    "parseExpression sampleDebugger (\<lambda>s. s) (Some ''2*3*4+1'') = Some 26"
    using rule7 [OF v] by (rule conjunct1, rule conjunct2 [THEN conjunct2, THEN conjunct2, THEN conjunct1])
  have lt: "(8 :: nat) < 9" "\<not> (9 :: nat) < 8" by simp_all
  have "evalTokens sampleDebugger [''2'', ''*'', ''3'', ''+'', ''4''] = Some (toInt32 10)"
    by (rule rule6 [OF n(1) pv(1) n(2) pv(2) n(3) pv(3) p2 p1, THEN conjunct1, rule_format,
                    OF lt(1) b b1(1)])
  then have 5: "evalTokens sampleDebugger [''2'', ''*'', ''3'', ''+'', ''4''] = Some 10"
    by (simp only: t)
  have "evalTokens sampleDebugger [''2'', ''+'', ''3'', ''*'', ''4''] = Some (toInt32 14)"
    by (rule rule6 [OF n(1) pv(1) n(2) pv(2) n(3) pv(3) p1 p2, THEN conjunct2, rule_format,
                    OF lt(2) b1(2) b1(3)])
  then have 6: "evalTokens sampleDebugger [''2'', ''+'', ''3'', ''*'', ''4''] = Some 14"
    by (simp only: t)
  from 1 2 3 5 6 4 show ?thesis by (intro conjI)
qed

text \<open>
  C2. The caret is in the precedence table and in the \<open>switch\<close> of \<open>evalExpression\<close>,
  where \<open>1 ^ 2\<close> is 3, but the regular expression that splits the input has it
  unescaped, so it never separates anything: \<open>1^2\<close> stays one token, the whole string
  is looked up as a single value, and on the sample machine, where 1 and 2 resolve to
  1 and 2, the expression is undefined.
\<close>

theorem caret_is_not_split:
  "js_split regExp ''1^2'' = [''1^2'']
   \<and> parseExpression dbg substitute (Some ''1^2'') = parseValue dbg (Some ''1^2'')
   \<and> parseValue sampleDebugger (Some ''1'') = Some 1
   \<and> parseValue sampleDebugger (Some ''2'') = Some 2
   \<and> map_option toInt32 (binOp ''^'' 1 2) = Some 3
   \<and> parseExpression sampleDebugger (\<lambda>s. s) (Some ''1^2'') = None"
proof (intro conjI)
  show s: "js_split regExp ''1^2'' = [''1^2'']"
    by (simp add: js_split_def splitLoop.simps regExp_def startsWith_def substring_def)
  have r: "parseReference substitute ''1^2'' = ''1^2''"
    by (simp add: parseReference_def isLineTerminator_def)
  have t: "str_trim ''1^2'' = ''1^2''" by (simp add: str_trim_def isSpace_def)
  show "parseExpression dbg substitute (Some ''1^2'') = parseValue dbg (Some ''1^2'')"
    by (cases "parseValue dbg (Some ''1^2'')")
       (simp_all add: parseExpression_def r s t evalExpression_def)
  show "parseValue sampleDebugger (Some ''1'') = Some 1"
    by (simp add: evaluate_expression sampleDebugger_def)
  show "parseValue sampleDebugger (Some ''2'') = Some 2"
    by (simp add: evaluate_expression sampleDebugger_def)
  show "map_option toInt32 (binOp ''^'' 1 2) = Some 3"
    by (simp add: binOp_def js_xor_def toInt32_def)
  show "parseExpression sampleDebugger (\<lambda>s. s) (Some ''1^2'') = None"
    by (simp add: evaluate_expression sampleDebugger_def)
qed

theorem caret_is_not_split_witness:
  "js_split regExp ''1^2'' = [''1^2'']
   \<and> parseExpression sampleDebugger (\<lambda>s. s) (Some ''1^2'')
       = parseValue sampleDebugger (Some ''1^2'')
   \<and> parseExpression sampleDebugger (\<lambda>s. s) (Some ''1^2'') = None"
  using caret_is_not_split [of sampleDebugger "\<lambda>s. s"] by blast

text \<open>
  C10. \<open>evalExpression\<close> does return false when it is asked to divide by zero, but the
  call made for an operator of lower precedence drops that result. In \<open>1/0+5||0\<close> the
  failed division empties both stacks, the failed addition then pops its operator
  only, and what is left evaluates to 1: a number, where the claim has undefined. With
  nothing after it, \<open>1/0\<close> is undefined.
\<close>

theorem division_by_zero_result_dropped:
  "evalExpression [0, 1] [''/''] (Some 1) = (False, [], [])
   \<and> js_split regExp ''1/0+5||0'' = [''1'', ''/'', ''0'', ''+'', ''5'', ''||'', ''0'']
   \<and> parseExpression sampleDebugger (\<lambda>s. s) (Some ''1/0+5||0'') = Some 1
   \<and> parseExpression sampleDebugger (\<lambda>s. s) (Some ''1/0'') = None"
proof (intro conjI)
  show "evalExpression [0, 1] [''/''] (Some 1) = (False, [], [])"
    by (simp add: evalExpression_def binOp_def)
  show "js_split regExp ''1/0+5||0'' = [''1'', ''/'', ''0'', ''+'', ''5'', ''||'', ''0'']"
    by (simp add: js_split_def splitLoop.simps regExp_def startsWith_def substring_def)
  show "parseExpression sampleDebugger (\<lambda>s. s) (Some ''1/0+5||0'') = Some 1"
    by (simp add: evaluate_expression sampleDebugger_def)
  show "parseExpression sampleDebugger (\<lambda>s. s) (Some ''1/0'') = None"
    by (simp add: evaluate_expression sampleDebugger_def)
qed

theorem division_by_zero_result_dropped_witness:
  "\<not> fst (evalExpression [0, 1] [''/''] (Some 1))
   \<and> parseExpression sampleDebugger (\<lambda>s. s) (Some ''1/0+5||0'') = Some 1"
  using division_by_zero_result_dropped by simp

section \<open>Properties of the address model\<close>

lemma getSegment_sample: "getSegment sampleDebugger (Some 0) 0x01 = Some sampleSeg"
  by (simp add: getSegment_def getCurrentType_def getCurrentMode_def sampleDebugger_def
      sampleCPU_def ADDR_REAL_def ADDR_PROT_def CR0_MSW_PE_def PS_VM_def js_and_def Let_def)

lemma getSegment_smallSeg:
  "getSegment smallSegDebugger (Some 0) 0x01 = Some (sampleSeg\<lparr>seg_limit := 0xfff, seg_offMax := 0x1000\<rparr>)"
  by (simp add: getSegment_def getCurrentType_def getCurrentMode_def sampleDebugger_def
      smallSegDebugger_def sampleCPU_def ADDR_REAL_def ADDR_PROT_def CR0_MSW_PE_def PS_VM_def
      js_and_def Let_def)

text \<open>
  C3, as stated, fails: on the sample machine the address \<open>0000:FFFF\<close> advanced by 1
  goes past the limit \<open>0xFFFF\<close> of its segment, and comes back with offset \<open>0x10000\<close> and
  the linear address \<open>0x10000\<close> still set.
\<close>

theorem incAddr_past_limit_counterexample:
  "sel sampleAddr \<noteq> None
   \<and> getSegment sampleDebugger (sel sampleAddr) (addrType sampleAddr) = Some sampleSeg
   \<and> seg_limit sampleSeg < off sampleAddr + 1
   \<and> off (incAddr sampleDebugger sampleAddr 1) = 0x10000
   \<and> addr (incAddr sampleDebugger sampleAddr 1) = Some 0x10000
   \<and> \<not> (addr (incAddr sampleDebugger sampleAddr 1) = None
         \<and> off (incAddr sampleDebugger sampleAddr 1) = 0)"
proof -
  have s: "getSegment sampleDebugger (sel sampleAddr) (addrType sampleAddr) = Some sampleSeg"
    using getSegment_sample by (simp add: sampleAddr_def)
  have m: "toUint32 (js_and 0x10000 0xffff) = 0" by (simp add: toUint32_def js_and_def)
  have i: "incAddr sampleDebugger sampleAddr 1 = sampleAddr\<lparr>addr := Some 0x10000, off := 0x10000\<rparr>"
    using getSegment_sample m
    by (simp add: incAddr_def checkLimit_def sampleAddr_def sampleSeg_def Let_def)
  show ?thesis using s by (simp add: i) (simp add: sampleAddr_def sampleSeg_def)
qed

lemma uint_and_low:
  fixes w :: "32 word"
  shows "uint (w AND 0xffff) = take_bit 16 (uint w)"
proof -
  have "(0xffff :: 32 word) = mask 16" by (simp add: mask_eq_exp_minus_1)
  then have "w AND 0xffff = take_bit 16 w" by (simp add: take_bit_eq_mask)
  then show ?thesis by (simp add: unsigned_take_bit_eq)
qed

lemma mask16_keeps:
  assumes "0 \<le> x" "x \<le> 0xffff"
  shows "toUint32 (js_and x 0xffff) = x"
proof -
  have a: "take_bit 32 x = x" using assms by (intro take_bit_int_eq_self) simp_all
  have b: "take_bit 16 x = x" using assms by (intro take_bit_int_eq_self) simp_all
  have "toUint32 (js_and x 0xffff) = uint ((word_of_int x :: 32 word) AND 0xffff)"
    by (simp add: toUint32_def js_and_def)
  also have "\<dots> = take_bit 16 (uint (word_of_int x :: 32 word))" by (rule uint_and_low)
  also have "\<dots> = x" by (simp add: uint_word_of_int_eq a b)
  finally show ?thesis .
qed

lemma mask32_keeps:
  assumes "0 \<le> x" "x < 2 ^ 32"
  shows "toUint32 (js_and x (- 1)) = x" "toUint32 (js_and x 0xffffffff) = x"
proof -
  have a: "take_bit 32 x = x" using assms by (intro take_bit_int_eq_self) simp_all
  show "toUint32 (js_and x (- 1)) = x"
    by (simp add: toUint32_def js_and_def uint_word_of_int_eq a)
  have e: "(0xffffffff :: 32 word) = - 1" by simp
  have "(word_of_int x :: 32 word) AND 0xffffffff = word_of_int x" unfolding e by simp
  then have "js_and x 0xffffffff = sint (word_of_int x :: 32 word)" by (simp add: js_and_def)
  then show "toUint32 (js_and x 0xffffffff) = x"
    by (simp add: toUint32_def uint_word_of_int_eq a)
qed

lemma incAddr_segment:
  assumes "sel a = Some s" "getSegment dbg (sel a) (addrType a) = Some seg"
  shows "incAddr dbg a inc =
           (if seg_offMax seg
                 \<le> toUint32 (js_and (off a + (if inc = 0 then 1 else inc)) (seg_maskAddr seg))
            then a\<lparr>addr := None, off := 0\<rparr>
            else a\<lparr>addr := map_option (\<lambda>x. x + (if inc = 0 then 1 else inc)) (addr a),
                   off := off a + (if inc = 0 then 1 else inc)\<rparr>)"
  using assms by (cases "addr a") (auto simp: incAddr_def checkLimit_def Let_def)

lemma incAddr_no_segment:
  assumes "sel a = Some s" "getSegment dbg (sel a) (addrType a) = None"
  shows "incAddr dbg a inc =
           a\<lparr>addr := map_option (\<lambda>x. x + (if inc = 0 then 1 else inc)) (addr a),
             off := off a + (if inc = 0 then 1 else inc)\<rparr>"
  using assms by (cases "addr a") (auto simp: incAddr_def checkLimit_def Let_def)

text \<open>
  C3, amended. For a segmented address whose segment is available, \<open>incAddr\<close>
  invalidates the resolution (offset 0, no linear address) exactly when the advanced
  offset, masked with the segment's address mask and read as an unsigned 32-bit
  number, is at or beyond the segment's \<open>offMax\<close>. Otherwise the offset is advanced,
  unmasked, and the linear address, if there is one, is advanced with it. So an
  advanced offset at or beyond \<open>offMax\<close> invalidates the address as long as it is
  within the range of the address mask (up to \<open>0xFFFF\<close> for a 16-bit mask, below \<open>2^32\<close>
  for a 32-bit one); past that range it wraps in the check. When no segment is
  available the address is advanced too.
\<close>

theorem incAddr_limit:
  "sel a = Some s \<longrightarrow>
     (let inc' = (if inc = 0 then 1 else inc); off' = off a + inc' in
      (getSegment dbg (sel a) (addrType a) = Some seg \<longrightarrow>
         incAddr dbg a inc =
           (if seg_offMax seg \<le> toUint32 (js_and off' (seg_maskAddr seg))
            then a\<lparr>addr := None, off := 0\<rparr>
            else a\<lparr>addr := map_option (\<lambda>x. x + inc') (addr a), off := off'\<rparr>)
         \<and> (seg_maskAddr seg = 0xffff \<longrightarrow> 0 \<le> off' \<longrightarrow> off' \<le> 0xffff \<longrightarrow>
              seg_offMax seg \<le> off' \<longrightarrow> incAddr dbg a inc = a\<lparr>addr := None, off := 0\<rparr>)
         \<and> (seg_maskAddr seg = - 1 \<or> seg_maskAddr seg = 0xffffffff \<longrightarrow>
              0 \<le> off' \<longrightarrow> off' < 2 ^ 32 \<longrightarrow>
              seg_offMax seg \<le> off' \<longrightarrow> incAddr dbg a inc = a\<lparr>addr := None, off := 0\<rparr>))
      \<and> (getSegment dbg (sel a) (addrType a) = None \<longrightarrow>
         incAddr dbg a inc = a\<lparr>addr := map_option (\<lambda>x. x + inc') (addr a), off := off'\<rparr>))"
proof (intro impI)
  assume s: "sel a = Some s"
  let ?i = "if inc = 0 then 1 else inc"
  let ?o = "off a + ?i"
  have A: "incAddr dbg a inc =
           (if seg_offMax seg \<le> toUint32 (js_and ?o (seg_maskAddr seg))
            then a\<lparr>addr := None, off := 0\<rparr>
            else a\<lparr>addr := map_option (\<lambda>x. x + ?i) (addr a), off := ?o\<rparr>)"
    if "getSegment dbg (sel a) (addrType a) = Some seg"
    using incAddr_segment [OF s that] .
  have B: "incAddr dbg a inc = a\<lparr>addr := None, off := 0\<rparr>"
    if "getSegment dbg (sel a) (addrType a) = Some seg" "seg_maskAddr seg = 0xffff"
      "0 \<le> ?o" "?o \<le> 0xffff" "seg_offMax seg \<le> ?o"
    using A [OF that(1)] that(2,5) mask16_keeps [OF that(3,4)] by simp
  have C: "incAddr dbg a inc = a\<lparr>addr := None, off := 0\<rparr>"
    if "getSegment dbg (sel a) (addrType a) = Some seg"
      "seg_maskAddr seg = - 1 \<or> seg_maskAddr seg = 0xffffffff"
      "0 \<le> ?o" "?o < 2 ^ 32" "seg_offMax seg \<le> ?o"
    using A [OF that(1)] that(2,5) mask32_keeps [OF that(3,4)] by auto
  have D: "incAddr dbg a inc = a\<lparr>addr := map_option (\<lambda>x. x + ?i) (addr a), off := ?o\<rparr>"
    if "getSegment dbg (sel a) (addrType a) = None"
    using incAddr_no_segment [OF s that] .
  show "let inc' = ?i; off' = off a + inc' in
      (getSegment dbg (sel a) (addrType a) = Some seg \<longrightarrow>
         incAddr dbg a inc =
           (if seg_offMax seg \<le> toUint32 (js_and off' (seg_maskAddr seg))
            then a\<lparr>addr := None, off := 0\<rparr>
            else a\<lparr>addr := map_option (\<lambda>x. x + inc') (addr a), off := off'\<rparr>)
         \<and> (seg_maskAddr seg = 0xffff \<longrightarrow> 0 \<le> off' \<longrightarrow> off' \<le> 0xffff \<longrightarrow>
              seg_offMax seg \<le> off' \<longrightarrow> incAddr dbg a inc = a\<lparr>addr := None, off := 0\<rparr>)
         \<and> (seg_maskAddr seg = - 1 \<or> seg_maskAddr seg = 0xffffffff \<longrightarrow>
              0 \<le> off' \<longrightarrow> off' < 2 ^ 32 \<longrightarrow>
              seg_offMax seg \<le> off' \<longrightarrow> incAddr dbg a inc = a\<lparr>addr := None, off := 0\<rparr>))
      \<and> (getSegment dbg (sel a) (addrType a) = None \<longrightarrow>
         incAddr dbg a inc = a\<lparr>addr := map_option (\<lambda>x. x + inc') (addr a), off := off'\<rparr>)"
    unfolding Let_def using A B C D by blast
qed

theorem incAddr_limit_witness:
  "incAddr smallSegDebugger (sampleAddr\<lparr>off := 0xfff, addr := Some 0xfff\<rparr>) 1
     = sampleAddr\<lparr>off := 0, addr := None\<rparr>
   \<and> incAddr smallSegDebugger (sampleAddr\<lparr>off := 0xffe, addr := Some 0xffe\<rparr>) 1
     = sampleAddr\<lparr>off := 0xfff, addr := Some 0xfff\<rparr>"
proof -
  let ?seg = "sampleSeg\<lparr>seg_limit := 0xfff, seg_offMax := 0x1000\<rparr>"
  let ?a = "sampleAddr\<lparr>off := 0xfff, addr := Some 0xfff\<rparr>"
  let ?b = "sampleAddr\<lparr>off := 0xffe, addr := Some 0xffe\<rparr>"
  have sa: "sel ?a = Some 0" and sb: "sel ?b = Some 0" by (simp_all add: sampleAddr_def)
  have ga: "getSegment smallSegDebugger (sel ?a) (addrType ?a) = Some ?seg"
    using getSegment_smallSeg by (simp add: sampleAddr_def)
  have gb: "getSegment smallSegDebugger (sel ?b) (addrType ?b) = Some ?seg"
    using getSegment_smallSeg by (simp add: sampleAddr_def)
  have m1: "toUint32 (js_and 0x1000 0xffff) = 0x1000" by (simp add: toUint32_def js_and_def)
  have m2: "toUint32 (js_and 0xfff 0xffff) = 0xfff" by (simp add: toUint32_def js_and_def)
  have 1: "incAddr smallSegDebugger ?a 1 = sampleAddr\<lparr>off := 0, addr := None\<rparr>"
    using incAddr_limit [of ?a 0 1 smallSegDebugger ?seg] sa ga m1
    by (simp add: Let_def sampleSeg_def sampleAddr_def)
  have 2: "incAddr smallSegDebugger ?b 1 = sampleAddr\<lparr>off := 0xfff, addr := Some 0xfff\<rparr>"
    using incAddr_limit [of ?b 0 1 smallSegDebugger ?seg] sb gb m2
    by (simp add: Let_def sampleSeg_def sampleAddr_def)
  from 1 2 show ?thesis by blast
qed

text \<open>
  C7. When \<open>getAddr\<close> gives \<open>ADDR_INVALID\<close> for the address, \<open>getByte\<close> returns \<open>0xFF\<close>,
  \<open>getShort\<close> \<open>0xFFFF\<close> and \<open>getLong\<close> \<open>-1\<close>, whatever increment was asked for, and the
  address is left as \<open>getAddr\<close> left it: same selector, same offset, and a linear
  address that is the one it had or \<open>ADDR_INVALID\<close>. The three readers have no statement
  that raises.
\<close>

theorem readers_return_sentinel:
  "(fst (getAddr dbg a False (Some 1)) = ADDR_INVALID dbg \<longrightarrow>
      getByte dbg a inc = (0xff, snd (getAddr dbg a False (Some 1))))
   \<and> (fst (getAddr dbg a False (Some 2)) = ADDR_INVALID dbg \<longrightarrow>
      getShort dbg a inc = (0xffff, snd (getAddr dbg a False (Some 2))))
   \<and> (fst (getAddr dbg a False (Some 4)) = ADDR_INVALID dbg \<longrightarrow>
      getLong dbg a inc = (-1, snd (getAddr dbg a False (Some 4))))
   \<and> (fst (getAddr dbg a False nb) = ADDR_INVALID dbg \<longrightarrow>
      off (snd (getAddr dbg a False nb)) = off a
      \<and> sel (snd (getAddr dbg a False nb)) = sel a
      \<and> (addr (snd (getAddr dbg a False nb)) = addr a
          \<or> addr (snd (getAddr dbg a False nb)) = Some (ADDR_INVALID dbg)))"
proof (intro conjI impI)
  assume "fst (getAddr dbg a False (Some 1)) = ADDR_INVALID dbg"
  then show "getByte dbg a inc = (0xff, snd (getAddr dbg a False (Some 1)))"
    by (cases "getAddr dbg a False (Some 1)") (simp add: getByte_def)
next
  assume "fst (getAddr dbg a False (Some 2)) = ADDR_INVALID dbg"
  then show "getShort dbg a inc = (0xffff, snd (getAddr dbg a False (Some 2)))"
    by (cases "getAddr dbg a False (Some 2)") (simp add: getShort_def)
next
  assume "fst (getAddr dbg a False (Some 4)) = ADDR_INVALID dbg"
  then show "getLong dbg a inc = (-1, snd (getAddr dbg a False (Some 4)))"
    by (cases "getAddr dbg a False (Some 4)") (simp add: getLong_def)
next
  assume h: "fst (getAddr dbg a False nb) = ADDR_INVALID dbg"
  show "off (snd (getAddr dbg a False nb)) = off a"
    by (simp add: getAddr_def Let_def split: option.splits)
  show "sel (snd (getAddr dbg a False nb)) = sel a"
    by (simp add: getAddr_def Let_def split: option.splits)
  show "addr (snd (getAddr dbg a False nb)) = addr a
          \<or> addr (snd (getAddr dbg a False nb)) = Some (ADDR_INVALID dbg)"
    using h by (auto simp: getAddr_def Let_def split: option.splits)
qed

theorem readers_return_sentinel_witness:
  "getByte sampleDebugger (sampleAddr\<lparr>off := 0x10000, addr := None\<rparr>) 1
     = (0xff, sampleAddr\<lparr>off := 0x10000, addr := Some (- 1)\<rparr>)
   \<and> getShort sampleDebugger (sampleAddr\<lparr>addr := None\<rparr>) 2
     = (0xffff, sampleAddr\<lparr>addr := Some (- 1)\<rparr>)
   \<and> getLong sampleDebugger (sampleAddr\<lparr>addr := None\<rparr>) 4
     = (- 1, sampleAddr\<lparr>addr := Some (- 1)\<rparr>)"
proof -
  let ?a = "sampleAddr\<lparr>off := 0x10000, addr := None\<rparr>"
  let ?b = "sampleAddr\<lparr>addr := None\<rparr>"
  have ga: "getAddr sampleDebugger ?a False (Some 1) = (- 1, ?a\<lparr>addr := Some (- 1)\<rparr>)"
    using getSegment_sample
    by (simp add: getAddr_def sampleAddr_def sampleSeg_def nbOrOne_def Let_def)
  have gb2: "getAddr sampleDebugger ?b False (Some 2) = (- 1, ?b\<lparr>addr := Some (- 1)\<rparr>)"
    using getSegment_sample
    by (simp add: getAddr_def sampleAddr_def sampleSeg_def nbOrOne_def Let_def)
  have gb4: "getAddr sampleDebugger ?b False (Some 4) = (- 1, ?b\<lparr>addr := Some (- 1)\<rparr>)"
    using getSegment_sample
    by (simp add: getAddr_def sampleAddr_def sampleSeg_def nbOrOne_def Let_def)
  have inv: "ADDR_INVALID sampleDebugger = - 1" by (simp add: sampleDebugger_def)
  have 1: "getByte sampleDebugger ?a 1 = (0xff, ?a\<lparr>addr := Some (- 1)\<rparr>)"
    using readers_return_sentinel [of sampleDebugger ?a 1] ga inv by simp
  have 2: "getShort sampleDebugger ?b 2 = (0xffff, ?b\<lparr>addr := Some (- 1)\<rparr>)"
    using readers_return_sentinel [of sampleDebugger ?b 2] gb2 inv by simp
  have 3: "getLong sampleDebugger ?b 4 = (- 1, ?b\<lparr>addr := Some (- 1)\<rparr>)"
    using readers_return_sentinel [of sampleDebugger ?b 4] gb4 inv by simp
  from 1 2 3 show ?thesis by simp
qed

section \<open>Properties of the breakpoint engine\<close>

lemma and_high_nibble:
  fixes A M :: "32 word"
  assumes "M AND 0xf0000 = 0xf0000" "A AND (M AND NOT 0xffff) = M AND NOT 0xffff"
  shows "A AND 0xf0000 = 0xf0000"
proof -
  have m: "(M AND NOT 0xffff) AND 0xf0000 = 0xf0000"
  proof -
    have "(NOT 0xffff :: 32 word) AND 0xf0000 = 0xf0000" by simp
    then show ?thesis using assms(1) by (simp add: and.assoc)
  qed
  have "A AND 0xf0000 = A AND ((M AND NOT 0xffff) AND 0xf0000)" by (simp only: m)
  also have "\<dots> = (A AND (M AND NOT 0xffff)) AND 0xf0000" by (simp only: and.assoc)
  also have "\<dots> = 0xf0000" by (simp only: assms(2) m)
  finally show ?thesis .
qed

lemma and_first_megabyte:
  fixes A :: "32 word"
  assumes "A AND 0xf0000 = 0xf0000"
  shows "0xf0000 \<le> A AND 0xfffff" "A AND 0xfffff \<le> 0xfffff"
proof -
  have "(A AND 0xfffff) AND 0xf0000 = A AND (0xfffff AND 0xf0000)" by (simp only: and.assoc)
  also have "\<dots> = 0xf0000" using assms by simp
  finally have "(A AND 0xfffff) AND 0xf0000 = 0xf0000" .
  then show "0xf0000 \<le> A AND 0xfffff" by (metis word_and_le2)
  show "A AND 0xfffff \<le> 0xfffff" by (rule word_and_le1)
qed

lemma sint_small:
  fixes x :: "32 word"
  assumes "x \<le> 0xfffff"
  shows "sint x = uint x"
proof -
  have "uint x \<le> 0xfffff" using assms by (simp add: word_le_def)
  then have hi: "uint x < 2 ^ 31" by simp
  have "- (2 ^ 31) \<le> (0 :: int)" by simp
  also have "0 \<le> uint x" by simp
  finally have lo: "- (2 ^ 31) \<le> uint x" .
  from lo hi have "signed_take_bit 31 (uint x) = uint x" by (rule signed_take_bit_int_eq_self)
  then show ?thesis by (simp add: sint_uint)
qed

lemma sint_inject: "sint (x :: 32 word) = sint y \<longleftrightarrow> x = y"
  by (metis signed_word_eqI)

lemma mapBreakpoint_top:
  assumes M: "js_and (maskAddr dbg) 0xf0000 = 0xf0000"
    and v: "a \<noteq> ADDR_INVALID dbg"
    and t: "js_and a (js_and (maskAddr dbg) (js_not 0xffff)) = js_and (maskAddr dbg) (js_not 0xffff)"
  shows "mapBreakpoint dbg a = js_and a 0xfffff"
    and "0xf0000 \<le> mapBreakpoint dbg a" and "mapBreakpoint dbg a \<le> 0xfffff"
    and "js_and (mapBreakpoint dbg a) 0xffff = js_and a 0xffff"
proof -
  let ?A = "word_of_int a :: 32 word"
  let ?M = "word_of_int (maskAddr dbg) :: 32 word"
  show e: "mapBreakpoint dbg a = js_and a 0xfffff"
    using v t by (simp add: mapBreakpoint_def Let_def)
  have "sint (?M AND 0xf0000) = sint (0xf0000 :: 32 word)"
    using M by (simp add: js_and_def)
  then have M': "?M AND 0xf0000 = 0xf0000" by (simp only: sint_inject)
  have t': "?A AND (?M AND NOT 0xffff) = ?M AND NOT 0xffff"
    using t by (simp add: js_and_def js_not_def sint_inject)
  have h: "?A AND 0xf0000 = 0xf0000" by (rule and_high_nibble [OF M' t'])
  note b = and_first_megabyte [OF h]
  have s: "sint (?A AND 0xfffff) = uint (?A AND 0xfffff)" by (rule sint_small [OF b(2)])
  have lo: "uint (0xf0000 :: 32 word) \<le> uint (?A AND 0xfffff)" using b(1) by (simp only: word_le_def)
  have hi: "uint (?A AND 0xfffff) \<le> uint (0xfffff :: 32 word)" using b(2) by (simp only: word_le_def)
  show "0xf0000 \<le> mapBreakpoint dbg a" using lo by (simp add: e js_and_def s)
  show "mapBreakpoint dbg a \<le> 0xfffff" using hi by (simp add: e js_and_def s)
  show "js_and (mapBreakpoint dbg a) 0xffff = js_and a 0xffff"
    by (simp add: e js_and_def and.assoc)
qed

lemma mapBreakpoint_exec:
  assumes "maskAddr dbg \<in> {0xfffff, 0xffffff, 0xffffffff, - 1}"
  shows "mapBreakpoint dbg 0xffff0 = 0xffff0"
  using assms by (auto simp: mapBreakpoint_def Let_def js_and_def js_not_def)

lemma mapBreakpoint_reset:
  assumes "maskAddr dbg \<in> {0xfffff, 0xffffff, 0xffffffff, - 1}"
    and "maskAddr dbg + 1 - 0x10 \<noteq> ADDR_INVALID dbg"
  shows "mapBreakpoint dbg (maskAddr dbg + 1 - 0x10) = 0xffff0"
  using assms by (auto simp: mapBreakpoint_def Let_def js_and_def js_not_def)

lemma mapBreakpoint_suppress [simp]:
  "mapBreakpoint (dbg\<lparr>nSuppressBreaks := n\<rparr>) = mapBreakpoint dbg"
  by (rule ext) (simp add: mapBreakpoint_def)

subsection \<open>Adding, finding and removing\<close>

lemma getAddr_idem:
  "getAddr dbg (snd (getAddr dbg x fWrite nb)) fWrite' nb' = getAddr dbg x fWrite nb"
  by (auto simp: getAddr_def Let_def split: option.splits)

lemma getAddr_keeps:
  "sel (snd (getAddr dbg x fWrite nb)) = sel x"
  "off (snd (getAddr dbg x fWrite nb)) = off x"
  "fTempBreak (snd (getAddr dbg x fWrite nb)) = fTempBreak x"
  by (auto simp: getAddr_def Let_def split: option.splits)

lemma getAddr_fst_nb:
  "addr x \<noteq> None \<or> getSegment dbg (sel x) (addrType x) = None \<Longrightarrow>
     fst (getAddr dbg x fWrite nb) = fst (getAddr dbg x fWrite' nb')"
  by (auto simp: getAddr_def Let_def split: option.splits)

lemma breakMatches_cached:
  "fst (breakMatches dbg a x (snd (breakMatches dbg a' y b))) = fst (breakMatches dbg a x b)"
proof -
  have "fst (getAddr dbg (snd (getAddr dbg b False None)) False None) = fst (getAddr dbg b False None)"
    by (simp add: getAddr_idem)
  then show ?thesis
    by (auto simp: breakMatches_def getAddr_keeps split: prod.splits)
       (metis getAddr_keeps snd_conv)+
qed

lemma findLoop_found:
  "fst (findLoop dbg a x fRemove False l) = (\<exists>b\<in>set l. fst (breakMatches dbg a x b))"
  by (induction l) (auto split: prod.splits)

lemma findLoop_remove_count:
  "length (filter (\<lambda>b. fst (breakMatches dbg a x b)) (snd (findLoop dbg a x True False l)))
     = length (filter (\<lambda>b. fst (breakMatches dbg a x b)) l) - 1"
proof (induction l)
  case Nil
  then show ?case by simp
next
  case (Cons b l)
  obtain m b' where bm: "breakMatches dbg a x b = (m, b')" by (cases "breakMatches dbg a x b")
  have c: "fst (breakMatches dbg a x b') = m"
    using breakMatches_cached [of dbg a x a x b] bm by simp
  obtain f r where fl: "findLoop dbg a x True False l = (f, r)"
    by (cases "findLoop dbg a x True False l")
  show ?case
  proof (cases m)
    case True
    with bm show ?thesis by simp
  next
    case False
    with bm fl c Cons show ?thesis by simp
  qed
qed

lemma resolution_same:
  assumes "cpu d' = cpu d" "I386 d' = I386 d" "nSuppressBreaks d' = nSuppressBreaks d"
    "loadReal d' = loadReal d" "probeDesc d' = probeDesc d" "ADDR_INVALID d' = ADDR_INVALID d"
    "maskAddr d' = maskAddr d"
  shows "getAddr d' = getAddr d" "mapBreakpoint d' = mapBreakpoint d"
    "breakMatches d' = breakMatches d" "findLoop d' = findLoop d"
proof -
  have g: "getSegment d' = getSegment d"
    by (intro ext) (simp add: getSegment_def getCurrentType_def getCurrentMode_def Let_def assms)
  show ga: "getAddr d' = getAddr d"
    by (intro ext) (simp add: getAddr_def Let_def g assms cong: option.case_cong)
  show mb: "mapBreakpoint d' = mapBreakpoint d"
    by (intro ext) (simp add: mapBreakpoint_def Let_def assms)
  show bm: "breakMatches d' = breakMatches d"
    by (intro ext) (simp add: breakMatches_def ga mb assms cong: prod.case_cong)
  have "findLoop d' a x r t l = findLoop d a x r t l" for a x r t l
    by (induction l) (simp_all add: bm cong: prod.case_cong if_cong)
  then show "findLoop d' = findLoop d" by (intro ext)
qed

lemma resolution_historyInit:
  "getAddr (historyInit d) = getAddr d" "mapBreakpoint (historyInit d) = mapBreakpoint d"
  "breakMatches (historyInit d) = breakMatches d" "findLoop (historyInit d) = findLoop d"
  by (rule resolution_same; simp add: historyInit_def Let_def)+

lemma resolution_setBreak:
  "getAddr (setBreak d k l) = getAddr d" "mapBreakpoint (setBreak d k l) = mapBreakpoint d"
  "breakMatches (setBreak d k l) = breakMatches d" "findLoop (setBreak d k l) = findLoop d"
  by (rule resolution_same; cases k; simp)+

lemma getBreak_historyInit [simp]: "getBreak (historyInit d) Exec = getBreak d Exec"
  by (simp add: historyInit_def Let_def)

lemma getBreak_setBreak [simp]: "getBreak (setBreak d k l) k = l"
  by (cases k) simp_all

lemma findLoop_keep_count:
  "length (filter (\<lambda>b. fst (breakMatches dbg a x b)) (snd (findLoop dbg a x False False l)))
     = length (filter (\<lambda>b. fst (breakMatches dbg a x b)) l)"
proof (induction l)
  case Nil
  then show ?case by simp
next
  case (Cons b l)
  obtain m b' where bm: "breakMatches dbg a x b = (m, b')" by (cases "breakMatches dbg a x b")
  have c: "fst (breakMatches dbg a x b') = m"
    using breakMatches_cached [of dbg a x a x b] bm by simp
  obtain f r where fl: "findLoop dbg a x False False l = (f, r)"
    by (cases "findLoop dbg a x False False l")
  show ?case
  proof (cases m)
    case True
    with bm c show ?thesis by simp
  next
    case False
    with bm fl c Cons show ?thesis by simp
  qed
qed

lemma findLoop_found_count:
  "fst (findLoop dbg a x fRemove False l)
     = (0 < length (filter (\<lambda>b. fst (breakMatches dbg a x b)) l))"
  by (simp add: findLoop_found filter_empty_conv)

lemma breakMatches_self:
  "fst (breakMatches dbg (mapBreakpoint dbg (fst (getAddr dbg x False None)))
          (snd (getAddr dbg x False None)) (snd (getAddr dbg x False None)))"
  by (simp add: breakMatches_def getAddr_idem split: prod.splits)

lemma sameMachine_refl [simp]: "sameMachine d d"
  by (simp add: sameMachine_def)

lemma sameMachine_trans: "sameMachine d'' d' \<Longrightarrow> sameMachine d' d \<Longrightarrow> sameMachine d'' d"
  by (simp add: sameMachine_def)

lemma sameMachine_historyInit [simp]: "sameMachine (historyInit d) d"
  by (simp add: sameMachine_def historyInit_def Let_def)

lemma sameMachine_setBreak [simp]: "sameMachine (setBreak d k l) d"
  by (cases k) (simp_all add: sameMachine_def)

lemma sameMachine_resolution:
  assumes "sameMachine d' d"
  shows "getAddr d' = getAddr d" "mapBreakpoint d' = mapBreakpoint d"
    "breakMatches d' = breakMatches d" "findLoop d' = findLoop d"
  using assms unfolding sameMachine_def by (auto intro: resolution_same)

lemma matchCount_sameMachine: "sameMachine d' d \<Longrightarrow> matchCount d' = matchCount d"
  by (intro ext) (simp add: matchCount_def sameMachine_resolution)

lemma matchCount_cached:
  "matchCount dbg (snd (getAddr dbg x False None)) = matchCount dbg x"
  by (intro ext) (simp add: matchCount_def getAddr_idem)

lemma findBreakpoint_exec:
  assumes "findBreakpoint d Exec x fRemove False = (f, d', x')"
  shows "x' = snd (getAddr d x False None)"
    and "f = (0 < matchCount d x (aBreakExec d))"
    and "sameMachine d' d"
    and "matchCount d x (aBreakExec d') =
           (if fRemove then matchCount d x (aBreakExec d) - 1 else matchCount d x (aBreakExec d))"
proof -
  obtain a0 y where g: "getAddr d x False None = (a0, y)" by (cases "getAddr d x False None")
  obtain ff l where fl: "findLoop d (mapBreakpoint d a0) y fRemove False (aBreakExec d) = (ff, l)"
    by (cases "findLoop d (mapBreakpoint d a0) y fRemove False (aBreakExec d)")
  from assms g fl have r: "x' = y" "f = ff"
    "d' = (if ff \<and> fRemove then historyInit (d\<lparr>aBreakExec := l\<rparr>) else d\<lparr>aBreakExec := l\<rparr>)"
    by (auto simp: findBreakpoint_def Let_def)
  show "x' = snd (getAddr d x False None)" using r g by simp
  show "f = (0 < matchCount d x (aBreakExec d))"
    using findLoop_found_count [of d "mapBreakpoint d a0" y fRemove "aBreakExec d"] fl r g
    by (simp add: matchCount_def)
  have s: "sameMachine (d\<lparr>aBreakExec := l\<rparr>) d" by (simp add: sameMachine_def)
  show "sameMachine d' d"
  proof (cases "ff \<and> fRemove")
    case True
    then have "d' = historyInit (d\<lparr>aBreakExec := l\<rparr>)" using r by simp
    then show ?thesis using sameMachine_trans [OF sameMachine_historyInit s] by simp
  next
    case False
    then have "d' = d\<lparr>aBreakExec := l\<rparr>" using r by auto
    then show ?thesis using s by simp
  qed
  have l': "aBreakExec d' = l" using r by (simp add: historyInit_def Let_def)
  show "matchCount d x (aBreakExec d') =
           (if fRemove then matchCount d x (aBreakExec d) - 1 else matchCount d x (aBreakExec d))"
  proof (cases fRemove)
    case True
    with findLoop_remove_count [of d "mapBreakpoint d a0" y "aBreakExec d"] fl g l'
    show ?thesis by (simp add: matchCount_def)
  next
    case False
    with findLoop_keep_count [of d "mapBreakpoint d a0" y "aBreakExec d"] fl g l'
    show ?thesis by (simp add: matchCount_def)
  qed
qed

lemma addBreakpoint_exec:
  assumes "addBreakpoint d Exec x False = (ok, d', x')"
  shows "ok" and "x' = snd (getAddr d x False None)" and "sameMachine d' d"
    and "matchCount d x (aBreakExec d') = matchCount d x (aBreakExec d) - 1 + 1"
proof -
  obtain f d1 y where fb: "findBreakpoint d Exec x True False = (f, d1, y)"
    by (cases "findBreakpoint d Exec x True False")
  note F = findBreakpoint_exec [OF fb]
  from assms fb have r: "ok" "x' = y"
    "d' = historyInit (d1\<lparr>aBreakExec := aBreakExec d1 @ [y]\<rparr>)"
    by (auto simp: addBreakpoint_def Let_def)
  show "ok" by (rule r(1))
  show "x' = snd (getAddr d x False None)" using r F by simp
  have "sameMachine (d1\<lparr>aBreakExec := aBreakExec d1 @ [y]\<rparr>) d1" by (simp add: sameMachine_def)
  then have "sameMachine d' d1"
    using r sameMachine_trans [OF sameMachine_historyInit] by simp
  then show "sameMachine d' d" using F(3) by (rule sameMachine_trans)
  have l': "aBreakExec d' = aBreakExec d1 @ [y]" using r by (simp add: historyInit_def Let_def)
  have self: "matchCount d x [y] = 1"
    using breakMatches_self [of d x] F(1) by (simp add: matchCount_def)
  have "matchCount d x (aBreakExec d1 @ [y]) = matchCount d x (aBreakExec d1) + matchCount d x [y]"
    by (simp add: matchCount_def)
  then show "matchCount d x (aBreakExec d') = matchCount d x (aBreakExec d) - 1 + 1"
    using l' self F(4) by simp
qed

lemma round_trip_counts:
  assumes a: "addBreakpoint dbg Exec A False = (ok, d1, x1)"
    and b1: "findBreakpoint d1 Exec x1 False False = (f1, d2, x2)"
    and b2: "findBreakpoint d2 Exec x2 True False = (f2, d3, x3)"
    and b3: "findBreakpoint d3 Exec x3 False False = (f3, d4, x4)"
  shows "ok" "f1" "f2" "f3 \<longleftrightarrow> 2 \<le> matchCount dbg A (aBreakExec dbg)"
proof -
  note A = addBreakpoint_exec [OF a]
  have x1: "matchCount d1 x1 = matchCount dbg A"
    using A(2) A(3) by (simp add: matchCount_sameMachine matchCount_cached)
  note B = findBreakpoint_exec [OF b1]
  have x2: "matchCount d2 x2 = matchCount d1 x1"
    using B(1) B(3) by (simp add: matchCount_sameMachine matchCount_cached)
  note C = findBreakpoint_exec [OF b2]
  have x3: "matchCount d3 x3 = matchCount d2 x2"
    using C(1) C(3) by (simp add: matchCount_sameMachine matchCount_cached)
  note D = findBreakpoint_exec [OF b3]
  let ?n = "matchCount dbg A (aBreakExec dbg)"
  have n1: "matchCount dbg A (aBreakExec d1) = ?n - 1 + 1" using A(4) by simp
  have n2: "matchCount dbg A (aBreakExec d2) = ?n - 1 + 1" using B(4) n1 x1 by simp
  have n3: "matchCount dbg A (aBreakExec d3) = ?n - 1" using C(4) n2 x1 x2 by simp
  show "ok" by (rule A(1))
  show "f1" using B(2) n1 x1 by simp
  show "f2" using C(2) n2 x1 x2 by simp
  show "f3 \<longleftrightarrow> 2 \<le> ?n" using D(2) n3 x1 x2 x3 by auto
qed

subsection \<open>The array that the check walks\<close>

lemma refBreak_setBreak [simp]: "refBreak (setBreak d k l) k' = refBreak d k'"
  by (cases k; cases k'; simp)

lemma refBreak_historyInit [simp]: "refBreak (historyInit d) k = refBreak d k"
  by (cases k; simp add: historyInit_def Let_def)

lemma refBreak_suppress [simp]: "refBreak (d\<lparr>nSuppressBreaks := n\<rparr>) k = refBreak d k"
  by (cases k; simp)

lemma getBreak_suppress [simp]: "getBreak (d\<lparr>nSuppressBreaks := n\<rparr>) k = getBreak d k"
  by (cases k; simp)

lemma readArray_own: "refBreak dbg k = r \<Longrightarrow> readArray dbg k r = getBreak dbg k"
  by (simp add: readArray_def)

lemma writeArray_own: "refBreak dbg k = r \<Longrightarrow> writeArray dbg k r l = setBreak dbg k l"
  by (simp add: writeArray_def)

lemma checkLoop_step:
  "i < length (readArray dbg k r) \<Longrightarrow>
     checkLoop doCommand k r a nb i fTemp dbg =
       (case checkOne doCommand k r a nb i fTemp dbg of
          (fBreak, fTemp', dbg') \<Rightarrow>
            if fBreak then Some (True, dbg')
            else checkLoop doCommand k r a nb (i + 1) fTemp' dbg')"
  by (subst checkLoop.simps) simp

lemma checkLoop_end:
  "\<not> i < length (readArray dbg k r) \<Longrightarrow> checkLoop doCommand k r a nb i fTemp dbg = Some (False, dbg)"
  by (subst checkLoop.simps) simp

lemma resolveBreak_keeps:
  "sel (snd (resolveBreak dbg b)) = sel b"
  "off (snd (resolveBreak dbg b)) = off b"
  "fTempBreak (snd (resolveBreak dbg b)) = fTempBreak b"
  "aCmds (snd (resolveBreak dbg b)) = aCmds b"
  by (auto simp: resolveBreak_def getAddr_def Let_def split: option.splits)

lemma resolveBreak_same:
  "sameMachine d' d \<Longrightarrow> resolveBreak d' = resolveBreak d"
  by (intro ext) (simp add: resolveBreak_def sameMachine_resolution)

lemma resolveBreak_linear:
  "sel b = None \<Longrightarrow> addr b = Some x \<Longrightarrow> fst (resolveBreak dbg b) = x"
  by (simp add: resolveBreak_def getAddr_def)

subsection \<open>The addresses that the check compares\<close>

lemma checkLoop_plain:
  assumes "refBreak dbg k = r" "\<forall>b\<in>set (getBreak dbg k). aCmds b = None"
  shows "\<exists>d. checkLoop doCommand k r a nb i fTemp dbg =
           Some ((\<exists>j. i \<le> j \<and> j < length (getBreak dbg k) \<and> hitsAt dbg a nb fTemp (getBreak dbg k ! j)), d)"
  using assms
proof (induction "length (getBreak dbg k) - i" arbitrary: i dbg)
  case 0
  then have e: "\<not> i < length (readArray dbg k r)" by (simp add: readArray_own)
  have "\<not> (\<exists>j. i \<le> j \<and> j < length (getBreak dbg k) \<and> hitsAt dbg a nb fTemp (getBreak dbg k ! j))"
    using 0 by auto
  then show ?case using checkLoop_end [OF e] by simp
next
  case (Suc n)
  let ?l = "getBreak dbg k"
  let ?b = "?l ! i"
  from Suc.hyps(2) have i: "i < length ?l" by simp
  then have i': "i < length (readArray dbg k r)" using Suc.prems by (simp add: readArray_own)
  have bc: "aCmds ?b = None" using Suc.prems(2) i by simp
  obtain x b' where rb: "resolveBreak dbg ?b = (x, b')" by (cases "resolveBreak dbg ?b")
  have b': "aCmds b' = None" "fTempBreak b' = fTempBreak ?b"
    using resolveBreak_keeps [of dbg ?b] rb bc by simp_all
  let ?d1 = "setBreak dbg k (?l[i := b'])"
  have split: "(\<exists>j. i \<le> j \<and> j < length ?l \<and> hitsAt dbg a nb fTemp (?l ! j))
      \<longleftrightarrow> hitsAt dbg a nb fTemp ?b \<or> (\<exists>j. i + 1 \<le> j \<and> j < length ?l \<and> hitsAt dbg a nb fTemp (?l ! j))"
    (is "?L \<longleftrightarrow> ?H \<or> ?R")
  proof
    assume ?L
    then obtain j where j: "i \<le> j" "j < length ?l" "hitsAt dbg a nb fTemp (?l ! j)" by blast
    show "?H \<or> ?R"
    proof (cases "j = i")
      case True
      with j show ?thesis by simp
    next
      case False
      with j have "i + 1 \<le> j" by simp
      with j show ?thesis by blast
    qed
  next
    assume "?H \<or> ?R"
    then show ?L
    proof
      assume ?H
      with i show ?L by blast
    next
      assume ?R
      then obtain j where "i + 1 \<le> j" "j < length ?l" "hitsAt dbg a nb fTemp (?l ! j)" by blast
      then have "i \<le> j \<and> j < length ?l \<and> hitsAt dbg a nb fTemp (?l ! j)" by simp
      then show ?L by blast
    qed
  qed
  show ?case
  proof (cases "hitsAt dbg a nb fTemp ?b")
    case True
    then have "checkOne doCommand k r a nb i fTemp dbg
        = (True, fTempBreak b' \<or> fTemp,
           if fTempBreak b' then fst (snd (findBreakpointAt ?d1 k r b' True True)) else ?d1)"
      using Suc.prems(1) rb b'
      by (auto simp: checkOne_def Let_def hitsAt_def readArray_own writeArray_own)
    then show ?thesis using True split checkLoop_step [OF i', of doCommand a nb fTemp] by simp
  next
    case False
    have c: "checkOne doCommand k r a nb i fTemp dbg = (False, fTemp, dbg)
             \<or> checkOne doCommand k r a nb i fTemp dbg = (False, fTemp, ?d1)"
      using False Suc.prems(1) rb b'
      by (auto simp: checkOne_def Let_def hitsAt_def readArray_own writeArray_own)
    have ih0: "\<exists>d. checkLoop doCommand k r a nb (i + 1) fTemp dbg =
           Some ((\<exists>j. i + 1 \<le> j \<and> j < length ?l \<and> hitsAt dbg a nb fTemp (?l ! j)), d)"
      using Suc.hyps(1) [of dbg "i + 1"] Suc.hyps(2) Suc.prems by simp
    have s: "sameMachine ?d1 dbg" by simp
    have h1: "hitsAt ?d1 = hitsAt dbg"
      by (intro ext) (simp add: hitsAt_def resolveBreak_same [OF s] sameMachine_resolution [OF s])
    have cm: "\<forall>b\<in>set (getBreak ?d1 k). aCmds b = None"
    proof
      fix b assume "b \<in> set (getBreak ?d1 k)"
      then have "b \<in> insert b' (set ?l)" using set_update_subset_insert [of ?l i b'] by auto
      then show "aCmds b = None" using b'(1) Suc.prems(2) by auto
    qed
    have "\<exists>d. checkLoop doCommand k r a nb (i + 1) fTemp ?d1 =
           Some ((\<exists>j. i + 1 \<le> j \<and> j < length (getBreak ?d1 k)
                      \<and> hitsAt ?d1 a nb fTemp (getBreak ?d1 k ! j)), d)"
      using Suc.hyps(1) [of ?d1 "i + 1"] Suc.hyps(2) Suc.prems(1) cm by simp
    moreover have "(\<exists>j. i + 1 \<le> j \<and> j < length (getBreak ?d1 k)
                      \<and> hitsAt ?d1 a nb fTemp (getBreak ?d1 k ! j))
        \<longleftrightarrow> (\<exists>j. i + 1 \<le> j \<and> j < length ?l \<and> hitsAt dbg a nb fTemp (?l ! j))"
      by (auto simp: h1)
    ultimately have ih1: "\<exists>d. checkLoop doCommand k r a nb (i + 1) fTemp ?d1 =
           Some ((\<exists>j. i + 1 \<le> j \<and> j < length ?l \<and> hitsAt dbg a nb fTemp (?l ! j)), d)"
      by simp
    from c show ?thesis
    proof
      assume "checkOne doCommand k r a nb i fTemp dbg = (False, fTemp, dbg)"
      then show ?thesis using False split ih0 checkLoop_step [OF i', of doCommand a nb fTemp] by simp
    next
      assume "checkOne doCommand k r a nb i fTemp dbg = (False, fTemp, ?d1)"
      then show ?thesis using False split ih1 checkLoop_step [OF i', of doCommand a nb fTemp] by simp
    qed
  qed
qed

lemma checkBreakpoint_plain:
  assumes "nSuppressBreaks dbg = 0"
    and "\<not> (messageEnabled_INT_HALT dbg
             \<and> probeAddr (cpu dbg) (mapBreakpoint dbg a) = Some (OPCODE_INT3 dbg))"
    and "\<forall>b\<in>set (getBreak dbg k). aCmds b = None"
  shows "\<exists>d. checkBreakpoint doCommand dbg a nb k fTemp =
           Some ((\<exists>b\<in>set (getBreak dbg k).
                    hitsAt (dbg\<lparr>nSuppressBreaks := 1\<rparr>) (mapBreakpoint dbg a) nb fTemp b), d)"
proof -
  let ?d = "dbg\<lparr>nSuppressBreaks := 1\<rparr>"
  have c: "\<forall>b\<in>set (getBreak ?d k). aCmds b = None" using assms(3) by simp
  obtain d where d: "checkLoop doCommand k (refBreak ?d k) (mapBreakpoint dbg a) nb 0 fTemp ?d =
           Some ((\<exists>j. 0 \<le> j \<and> j < length (getBreak ?d k)
                      \<and> hitsAt ?d (mapBreakpoint dbg a) nb fTemp (getBreak ?d k ! j)), d)"
    using checkLoop_plain [OF refl c, of doCommand "mapBreakpoint dbg a" nb 0 fTemp] by blast
  have e: "(\<exists>j. 0 \<le> j \<and> j < length (getBreak ?d k)
                \<and> hitsAt ?d (mapBreakpoint dbg a) nb fTemp (getBreak ?d k ! j))
        \<longleftrightarrow> (\<exists>b\<in>set (getBreak dbg k). hitsAt ?d (mapBreakpoint dbg a) nb fTemp b)"
  proof
    assume "\<exists>j. 0 \<le> j \<and> j < length (getBreak ?d k)
                \<and> hitsAt ?d (mapBreakpoint dbg a) nb fTemp (getBreak ?d k ! j)"
    then obtain j where "j < length (getBreak dbg k)"
      "hitsAt ?d (mapBreakpoint dbg a) nb fTemp (getBreak dbg k ! j)" by auto
    then show "\<exists>b\<in>set (getBreak dbg k). hitsAt ?d (mapBreakpoint dbg a) nb fTemp b"
      using nth_mem by blast
  next
    assume "\<exists>b\<in>set (getBreak dbg k). hitsAt ?d (mapBreakpoint dbg a) nb fTemp b"
    then obtain b where "b \<in> set (getBreak dbg k)" "hitsAt ?d (mapBreakpoint dbg a) nb fTemp b"
      by blast
    then show "\<exists>j. 0 \<le> j \<and> j < length (getBreak ?d k)
                \<and> hitsAt ?d (mapBreakpoint dbg a) nb fTemp (getBreak ?d k ! j)"
      by (auto simp: in_set_conv_nth)
  qed
  show ?thesis
    using assms(1,2) d unfolding e
    by (auto simp: checkBreakpoint_def Let_def)
qed

lemma mapBreakpoint_invalid: "mapBreakpoint dbg (ADDR_INVALID dbg) = ADDR_INVALID dbg"
  by (simp add: mapBreakpoint_def)

text \<open>
  C6, as stated, fails: on a machine with a 32-bit address mask the address
  \<open>0xFFFFFFFF\<close>, held as the 32-bit integer -1, has all the bits above the low 16 set,
  but -1 is also \<open>ADDR_INVALID\<close>, which \<open>mapBreakpoint\<close> leaves as it is; its neighbour
  \<open>0xFFFFFFFE\<close> is mapped to \<open>0x000FFFFE\<close>. So a breakpoint on the linear address
  \<open>0xFFFFFFFF\<close> is not hit by an execution at \<open>0x000FFFFF\<close>.
\<close>

theorem mapBreakpoint_top_aliasing_counterexample:
  "js_and (- 1) (js_and (maskAddr wideDebugger) (js_not 0xffff))
     = js_and (maskAddr wideDebugger) (js_not 0xffff)
   \<and> mapBreakpoint wideDebugger (- 1) = - 1
   \<and> \<not> (0xf0000 \<le> mapBreakpoint wideDebugger (- 1) \<and> mapBreakpoint wideDebugger (- 1) \<le> 0xfffff)
   \<and> mapBreakpoint wideDebugger (- 2) = 0xffffe
   \<and> map_option fst
         (checkBreakpoint sampleCommand (wideDebugger\<lparr>aBreakExec := [emptyAddr\<lparr>addr := Some (- 1)\<rparr>]\<rparr>)
            0xfffff 1 Exec False) = Some False"
proof -
  let ?b = "emptyAddr\<lparr>addr := Some (- 1)\<rparr>"
  let ?d = "wideDebugger\<lparr>aBreakExec := [?b]\<rparr>"
  have 1: "js_and (- 1) (js_and (maskAddr wideDebugger) (js_not 0xffff))
     = js_and (maskAddr wideDebugger) (js_not 0xffff)"
    by (simp add: wideDebugger_def js_and_def js_not_def)
  have 2: "mapBreakpoint wideDebugger (- 1) = - 1"
    by (simp add: mapBreakpoint_def wideDebugger_def sampleDebugger_def)
  have 3: "mapBreakpoint wideDebugger (- 2) = 0xffffe"
    by (simp add: mapBreakpoint_def wideDebugger_def sampleDebugger_def js_and_def js_not_def Let_def)
  have m: "mapBreakpoint ?d = mapBreakpoint wideDebugger"
    by (rule ext) (simp add: mapBreakpoint_def)
  have e: "mapBreakpoint wideDebugger 0xfffff = 0xfffff"
    by (simp add: mapBreakpoint_def wideDebugger_def sampleDebugger_def js_and_def js_not_def Let_def)
  have r: "fst (resolveBreak (?d\<lparr>nSuppressBreaks := 1\<rparr>) ?b) = - 1"
    by (rule resolveBreak_linear) (simp_all add: emptyAddr_def)
  have n: "nSuppressBreaks ?d = 0" "\<not> messageEnabled_INT_HALT ?d"
    by (simp_all add: wideDebugger_def sampleDebugger_def)
  have c: "\<forall>b\<in>set (getBreak ?d Exec). aCmds b = None" by (simp add: emptyAddr_def)
  have h: "\<not> (\<exists>b\<in>set (getBreak ?d Exec).
              hitsAt (?d\<lparr>nSuppressBreaks := 1\<rparr>) (mapBreakpoint ?d 0xfffff) 1 False b)"
    using r by (simp add: hitsAt_def m e 2)
  obtain d where "checkBreakpoint sampleCommand ?d 0xfffff 1 Exec False =
      Some ((\<exists>b\<in>set (getBreak ?d Exec).
               hitsAt (?d\<lparr>nSuppressBreaks := 1\<rparr>) (mapBreakpoint ?d 0xfffff) 1 False b), d)"
    using checkBreakpoint_plain [of ?d "0xfffff" Exec sampleCommand 1 False] n c by blast
  then have 4: "map_option fst (checkBreakpoint sampleCommand ?d 0xfffff 1 Exec False) = Some False"
    using h by simp
  from 1 2 3 4 show ?thesis by simp
qed

text \<open>
  C6, amended. On a machine whose address mask covers at least 20 bits, every address
  other than \<open>ADDR_INVALID\<close> with all the mask's bits above the low 16 set is mapped to
  its low 20 bits, which lie in the top 64KB of the first megabyte, with the low 16
  bits kept; \<open>ADDR_INVALID\<close> itself is left as it is.

  The check compares mapped addresses on both sides: when no breakpoint of the array
  carries commands and the check is not stopped by an \<open>INT3\<close>, it returns, and it
  reports a hit exactly when the array holds a breakpoint that the check looks at and
  whose address, resolved and mapped, is one of the \<open>nb\<close> addresses from the mapped
  checked address on; a linear breakpoint resolves to its linear address. For the bus
  widths of 20, 24 and 32 bits, a linear execution breakpoint 16 bytes below the top of
  the address space, anywhere in such an array, is hit by an execution at \<open>0x000FFFF0\<close>,
  and one at \<open>0x000FFFF0\<close> by an execution 16 bytes below the top; alone in the array,
  the former is not hit by an execution at an address that is not mapped to
  \<open>0x000FFFF0\<close>.
\<close>

theorem mapBreakpoint_top_aliasing:
  "(js_and (maskAddr dbg) 0xf0000 = 0xf0000 \<longrightarrow> a \<noteq> ADDR_INVALID dbg \<longrightarrow>
      js_and a (js_and (maskAddr dbg) (js_not 0xffff)) = js_and (maskAddr dbg) (js_not 0xffff) \<longrightarrow>
        mapBreakpoint dbg a = js_and a 0xfffff
        \<and> 0xf0000 \<le> mapBreakpoint dbg a \<and> mapBreakpoint dbg a \<le> 0xfffff
        \<and> js_and (mapBreakpoint dbg a) 0xffff = js_and a 0xffff)
   \<and> mapBreakpoint dbg (ADDR_INVALID dbg) = ADDR_INVALID dbg
   \<and> (nSuppressBreaks dbg = 0 \<longrightarrow>
        \<not> (messageEnabled_INT_HALT dbg
            \<and> probeAddr (cpu dbg) (mapBreakpoint dbg a) = Some (OPCODE_INT3 dbg)) \<longrightarrow>
        (\<forall>b\<in>set (getBreak dbg aBreak). aCmds b = None) \<longrightarrow>
          (\<exists>d. checkBreakpoint doCommand dbg a nb aBreak fTemp =
             Some ((\<exists>b\<in>set (getBreak dbg aBreak).
                      (fTemp \<longrightarrow> fTempBreak b)
                      \<and> mapBreakpoint dbg a
                          \<le> mapBreakpoint dbg (fst (resolveBreak (dbg\<lparr>nSuppressBreaks := 1\<rparr>) b))
                      \<and> mapBreakpoint dbg (fst (resolveBreak (dbg\<lparr>nSuppressBreaks := 1\<rparr>) b))
                          < mapBreakpoint dbg a + nb), d)))
   \<and> (sel b = None \<longrightarrow> addr b = Some x \<longrightarrow> fst (resolveBreak dbg b) = x)
   \<and> (maskAddr dbg \<in> {0xfffff, 0xffffff, 0xffffffff, - 1} \<longrightarrow>
        maskAddr dbg + 1 - 0x10 \<noteq> ADDR_INVALID dbg \<longrightarrow>
        nSuppressBreaks dbg = 0 \<longrightarrow> \<not> messageEnabled_INT_HALT dbg \<longrightarrow>
        (\<forall>b\<in>set (aBreakExec dbg). aCmds b = None) \<longrightarrow>
        b \<in> set (aBreakExec dbg) \<longrightarrow> sel b = None \<longrightarrow>
          (addr b = Some (maskAddr dbg + 1 - 0x10) \<longrightarrow>
             (\<exists>d. checkBreakpoint doCommand dbg 0xffff0 1 Exec False = Some (True, d)))
          \<and> (addr b = Some 0xffff0 \<longrightarrow>
               (\<exists>d. checkBreakpoint doCommand dbg (maskAddr dbg + 1 - 0x10) 1 Exec False
                      = Some (True, d)))
          \<and> (addr b = Some (maskAddr dbg + 1 - 0x10) \<longrightarrow> aBreakExec dbg = [b] \<longrightarrow>
               mapBreakpoint dbg a \<noteq> 0xffff0 \<longrightarrow>
               (\<exists>d. checkBreakpoint doCommand dbg a 1 Exec False = Some (False, d))))"
proof (intro conjI impI)
  assume h: "js_and (maskAddr dbg) 0xf0000 = 0xf0000" "a \<noteq> ADDR_INVALID dbg"
    "js_and a (js_and (maskAddr dbg) (js_not 0xffff)) = js_and (maskAddr dbg) (js_not 0xffff)"
  show "mapBreakpoint dbg a = js_and a 0xfffff" by (rule mapBreakpoint_top(1) [OF h])
  show "0xf0000 \<le> mapBreakpoint dbg a" by (rule mapBreakpoint_top(2) [OF h])
  show "mapBreakpoint dbg a \<le> 0xfffff" by (rule mapBreakpoint_top(3) [OF h])
  show "js_and (mapBreakpoint dbg a) 0xffff = js_and a 0xffff" by (rule mapBreakpoint_top(4) [OF h])
next
  show "mapBreakpoint dbg (ADDR_INVALID dbg) = ADDR_INVALID dbg" by (rule mapBreakpoint_invalid)
next
  assume "nSuppressBreaks dbg = 0"
    "\<not> (messageEnabled_INT_HALT dbg
        \<and> probeAddr (cpu dbg) (mapBreakpoint dbg a) = Some (OPCODE_INT3 dbg))"
    "\<forall>b\<in>set (getBreak dbg aBreak). aCmds b = None"
  then show "\<exists>d. checkBreakpoint doCommand dbg a nb aBreak fTemp =
             Some ((\<exists>b\<in>set (getBreak dbg aBreak).
                      (fTemp \<longrightarrow> fTempBreak b)
                      \<and> mapBreakpoint dbg a
                          \<le> mapBreakpoint dbg (fst (resolveBreak (dbg\<lparr>nSuppressBreaks := 1\<rparr>) b))
                      \<and> mapBreakpoint dbg (fst (resolveBreak (dbg\<lparr>nSuppressBreaks := 1\<rparr>) b))
                          < mapBreakpoint dbg a + nb), d)"
    using checkBreakpoint_plain [of dbg a aBreak doCommand nb fTemp]
    by (simp add: hitsAt_def)
next
  assume "sel b = None" "addr b = Some x"
  then show "fst (resolveBreak dbg b) = x" by (rule resolveBreak_linear)
next
  let ?top = "maskAddr dbg + 1 - 0x10"
  let ?d = "dbg\<lparr>nSuppressBreaks := 1\<rparr>"
  assume m: "maskAddr dbg \<in> {0xfffff, 0xffffff, 0xffffffff, - 1}"
    and v: "?top \<noteq> ADDR_INVALID dbg"
    and n: "nSuppressBreaks dbg = 0" "\<not> messageEnabled_INT_HALT dbg"
    and c: "\<forall>b\<in>set (aBreakExec dbg). aCmds b = None"
    and b: "b \<in> set (aBreakExec dbg)" "sel b = None"
  have e: "mapBreakpoint dbg 0xffff0 = 0xffff0" by (rule mapBreakpoint_exec [OF m])
  have t0: "mapBreakpoint dbg ?top = 0xffff0" by (rule mapBreakpoint_reset [OF m v])
  then have t: "mapBreakpoint dbg (maskAddr dbg - 15) = 0xffff0" by simp
  have c': "\<forall>b\<in>set (getBreak dbg Exec). aCmds b = None" using c by simp
  have i: "\<not> (messageEnabled_INT_HALT dbg
             \<and> probeAddr (cpu dbg) (mapBreakpoint dbg a') = Some (OPCODE_INT3 dbg))" for a'
    using n(2) by simp
  have P: "\<exists>d. checkBreakpoint doCommand dbg a' 1 Exec False =
           Some ((\<exists>b\<in>set (getBreak dbg Exec).
                    hitsAt ?d (mapBreakpoint dbg a') 1 False b), d)" for a'
    by (rule checkBreakpoint_plain [OF n(1) i c'])
  {
    assume x: "addr b = Some ?top"
    have r: "fst (resolveBreak ?d b) = ?top" by (rule resolveBreak_linear [OF b(2) x])
    have "hitsAt ?d (mapBreakpoint dbg 0xffff0) 1 False b"
      using t by (simp add: hitsAt_def e r)
    then have "\<exists>b\<in>set (getBreak dbg Exec). hitsAt ?d (mapBreakpoint dbg 0xffff0) 1 False b"
      using b(1) by auto
    then show "\<exists>d. checkBreakpoint doCommand dbg 0xffff0 1 Exec False = Some (True, d)"
      using P [of "0xffff0"] by simp
  }
  {
    assume x: "addr b = Some 0xffff0"
    have r: "fst (resolveBreak ?d b) = 0xffff0" by (rule resolveBreak_linear [OF b(2) x])
    have "hitsAt ?d (mapBreakpoint dbg ?top) 1 False b"
      using e by (simp add: hitsAt_def t r)
    then have "\<exists>b\<in>set (getBreak dbg Exec). hitsAt ?d (mapBreakpoint dbg ?top) 1 False b"
      using b(1) by auto
    then show "\<exists>d. checkBreakpoint doCommand dbg ?top 1 Exec False = Some (True, d)"
      using P [of ?top] by simp
  }
  {
    assume x: "addr b = Some ?top" and l: "aBreakExec dbg = [b]"
      and ne: "mapBreakpoint dbg a \<noteq> 0xffff0"
    have r: "fst (resolveBreak ?d b) = ?top" by (rule resolveBreak_linear [OF b(2) x])
    have "\<not> hitsAt ?d (mapBreakpoint dbg a) 1 False b"
      using t ne by (simp add: hitsAt_def r)
    then have "\<not> (\<exists>b\<in>set (getBreak dbg Exec). hitsAt ?d (mapBreakpoint dbg a) 1 False b)"
      using l by simp
    then show "\<exists>d. checkBreakpoint doCommand dbg a 1 Exec False = Some (False, d)"
      using P [of a] by simp
  }
qed

theorem mapBreakpoint_top_aliasing_witness:
  "mapBreakpoint sampleDebugger 0xfffff0 = 0xffff0
   \<and> (\<exists>d. checkBreakpoint sampleCommand
              (sampleDebugger\<lparr>aBreakExec := [emptyAddr\<lparr>addr := Some 0x1234\<rparr>, resetBreak]\<rparr>)
              0xffff0 1 Exec False = Some (True, d))
   \<and> (\<exists>d. checkBreakpoint sampleCommand
              (sampleDebugger\<lparr>aBreakExec := [emptyAddr\<lparr>addr := Some 0xffff0\<rparr>]\<rparr>)
              0xfffff0 1 Exec False = Some (True, d))
   \<and> (\<exists>d. checkBreakpoint sampleCommand (sampleDebugger\<lparr>aBreakExec := [resetBreak]\<rparr>)
              0xfffe0 1 Exec False = Some (False, d))"
proof -
  let ?low = "emptyAddr\<lparr>addr := Some 0x1234\<rparr>"
  let ?meg = "emptyAddr\<lparr>addr := Some 0xffff0\<rparr>"
  let ?d1 = "sampleDebugger\<lparr>aBreakExec := [?low, resetBreak]\<rparr>"
  let ?d2 = "sampleDebugger\<lparr>aBreakExec := [?meg]\<rparr>"
  let ?d3 = "sampleDebugger\<lparr>aBreakExec := [resetBreak]\<rparr>"
  note T = mapBreakpoint_top_aliasing
  note remap = T [THEN conjunct1, rule_format]
  note inst = T [THEN conjunct2, THEN conjunct2, THEN conjunct2, THEN conjunct2,
                 THEN mp, THEN mp, THEN mp, THEN mp, THEN mp, THEN mp, THEN mp]
  have a1: "js_and (maskAddr sampleDebugger) 0xf0000 = 0xf0000"
    by (simp add: sampleDebugger_def js_and_def)
  have a2: "0xfffff0 \<noteq> ADDR_INVALID sampleDebugger" by (simp add: sampleDebugger_def)
  have a3: "js_and 0xfffff0 (js_and (maskAddr sampleDebugger) (js_not 0xffff))
              = js_and (maskAddr sampleDebugger) (js_not 0xffff)"
    by (simp add: sampleDebugger_def js_and_def js_not_def)
  have v: "js_and 0xfffff0 0xfffff = 0xffff0" by (simp add: js_and_def)
  have "mapBreakpoint sampleDebugger 0xfffff0 = js_and 0xfffff0 0xfffff"
    by (rule remap [OF a1 a2 a3, THEN conjunct1])
  then have 1: "mapBreakpoint sampleDebugger 0xfffff0 = 0xffff0" by (simp only: v)
  have m: "maskAddr (sampleDebugger\<lparr>aBreakExec := l\<rparr>) \<in> {0xfffff, 0xffffff, 0xffffffff, - 1}" for l
    by (simp add: sampleDebugger_def)
  have t: "maskAddr (sampleDebugger\<lparr>aBreakExec := l\<rparr>) + 1 - 0x10 = 0xfffff0" for l
    by (simp add: sampleDebugger_def)
  have i: "maskAddr (sampleDebugger\<lparr>aBreakExec := l\<rparr>) + 1 - 0x10
             \<noteq> ADDR_INVALID (sampleDebugger\<lparr>aBreakExec := l\<rparr>)" for l
    by (simp add: sampleDebugger_def)
  have n: "nSuppressBreaks (sampleDebugger\<lparr>aBreakExec := l\<rparr>) = 0"
    "\<not> messageEnabled_INT_HALT (sampleDebugger\<lparr>aBreakExec := l\<rparr>)" for l
    by (simp_all add: sampleDebugger_def)
  have c: "\<forall>b\<in>set (aBreakExec ?d1). aCmds b = None" "\<forall>b\<in>set (aBreakExec ?d2). aCmds b = None"
    "\<forall>b\<in>set (aBreakExec ?d3). aCmds b = None"
    by (simp_all add: resetBreak_def emptyAddr_def)
  have b: "resetBreak \<in> set (aBreakExec ?d1)" "?meg \<in> set (aBreakExec ?d2)"
    "resetBreak \<in> set (aBreakExec ?d3)" by simp_all
  have s: "sel resetBreak = None" "sel ?meg = None" by (simp_all add: resetBreak_def emptyAddr_def)
  have x: "addr resetBreak = Some (maskAddr (sampleDebugger\<lparr>aBreakExec := l\<rparr>) + 1 - 0x10)" for l
    by (simp add: resetBreak_def emptyAddr_def sampleDebugger_def)
  have y: "addr ?meg = Some 0xffff0" by simp
  have ne: "mapBreakpoint ?d3 0xfffe0 \<noteq> 0xffff0"
    by (simp add: mapBreakpoint_def sampleDebugger_def js_and_def js_not_def Let_def)
  have 2: "\<exists>d. checkBreakpoint sampleCommand ?d1 0xffff0 1 Exec False = Some (True, d)"
    by (rule inst [OF m i n c(1) b(1) s(1), THEN conjunct1, THEN mp, OF x])
  have "\<exists>d. checkBreakpoint sampleCommand ?d2 (maskAddr ?d2 + 1 - 0x10) 1 Exec False = Some (True, d)"
    by (rule inst [OF m i n c(2) b(2) s(2), THEN conjunct2, THEN conjunct1, THEN mp, OF y])
  then have 3: "\<exists>d. checkBreakpoint sampleCommand ?d2 0xfffff0 1 Exec False = Some (True, d)"
    by (simp only: t)
  have l: "aBreakExec ?d3 = [resetBreak]" by simp
  have 4: "\<exists>d. checkBreakpoint sampleCommand ?d3 0xfffe0 1 Exec False = Some (False, d)"
    by (rule inst [OF m i n c(3) b(3) s(1), THEN conjunct2, THEN conjunct2,
                   THEN mp, THEN mp, THEN mp, OF x l ne])
  from 1 2 3 4 show ?thesis by (intro conjI)
qed

subsection \<open>Commands attached to a breakpoint\<close>









lemma setBreak_getBreak [simp]: "setBreak dbg k (getBreak dbg k) = dbg"
  by (cases k) simp_all







subsection \<open>The round trip of a breakpoint\<close>

text \<open>
  C4, as stated, fails: with a permanent and a temporary breakpoint already on the
  address, which the debugger allows, adding the address replaces the permanent one,
  the removing \<open>find\<close> takes out the temporary one, and the next \<open>find\<close> still finds the
  breakpoint that was added.
\<close>

theorem breakpoint_round_trip_counterexample:
  "fst (getAddr twoBreaksDebugger resetBreak False None) \<noteq> ADDR_INVALID twoBreaksDebugger
   \<and> (case addBreakpoint twoBreaksDebugger Exec resetBreak False of
        (ok, d1, x1) \<Rightarrow>
          (case findBreakpoint d1 Exec x1 False False of
             (f1, d2, x2) \<Rightarrow>
               (case findBreakpoint d2 Exec x2 True False of
                  (f2, d3, x3) \<Rightarrow>
                    (case findBreakpoint d3 Exec x3 False False of
                       (f3, d4, x4) \<Rightarrow> ok \<and> f1 \<and> f2 \<and> f3))))"
proof -
  let ?d = twoBreaksDebugger
  have c: "matchCount ?d resetBreak (aBreakExec ?d) = 2"
    by (simp add: matchCount_def twoBreaksDebugger_def breakMatches_def getAddr_def
        resetBreak_def emptyAddr_def mapBreakpoint_def sampleDebugger_def js_and_def js_not_def
        Let_def)
  have v: "fst (getAddr ?d resetBreak False None) \<noteq> ADDR_INVALID ?d"
    by (simp add: getAddr_def resetBreak_def emptyAddr_def twoBreaksDebugger_def
        sampleDebugger_def)
  obtain ok d1 x1 where a: "addBreakpoint ?d Exec resetBreak False = (ok, d1, x1)"
    by (cases "addBreakpoint ?d Exec resetBreak False")
  obtain f1 d2 x2 where b1: "findBreakpoint d1 Exec x1 False False = (f1, d2, x2)"
    by (cases "findBreakpoint d1 Exec x1 False False")
  obtain f2 d3 x3 where b2: "findBreakpoint d2 Exec x2 True False = (f2, d3, x3)"
    by (cases "findBreakpoint d2 Exec x2 True False")
  obtain f3 d4 x4 where b3: "findBreakpoint d3 Exec x3 False False = (f3, d4, x4)"
    by (cases "findBreakpoint d3 Exec x3 False False")
  note R = round_trip_counts [OF a b1 b2 b3]
  have "f3" using R(4) c by simp
  with R(1-3) show ?thesis using v a b1 b2 b3 by simp
qed

text \<open>
  C4, amended. For every address, after \<open>add(execList, A)\<close> the breakpoint is found, and
  the removing \<open>find\<close> finds it too; the \<open>find\<close> after that returns false exactly when
  at most one breakpoint of the list matched the address before it was added. So it
  returns false unless the address was already held twice, as by a permanent and a
  temporary breakpoint together.
\<close>

theorem breakpoint_round_trip:
  "(case addBreakpoint dbg Exec A False of
      (ok, d1, x1) \<Rightarrow>
        (case findBreakpoint d1 Exec x1 False False of
           (f1, d2, x2) \<Rightarrow>
             (case findBreakpoint d2 Exec x2 True False of
                (f2, d3, x3) \<Rightarrow>
                  (case findBreakpoint d3 Exec x3 False False of
                     (f3, d4, x4) \<Rightarrow>
                       ok \<and> f1 \<and> f2
                       \<and> (matchCount dbg A (aBreakExec dbg) \<le> 1 \<longrightarrow> \<not> f3)
                       \<and> (\<not> f3 \<longrightarrow> matchCount dbg A (aBreakExec dbg) \<le> 1)))))"
proof -
  obtain ok d1 x1 where a: "addBreakpoint dbg Exec A False = (ok, d1, x1)"
    by (cases "addBreakpoint dbg Exec A False")
  obtain f1 d2 x2 where b1: "findBreakpoint d1 Exec x1 False False = (f1, d2, x2)"
    by (cases "findBreakpoint d1 Exec x1 False False")
  obtain f2 d3 x3 where b2: "findBreakpoint d2 Exec x2 True False = (f2, d3, x3)"
    by (cases "findBreakpoint d2 Exec x2 True False")
  obtain f3 d4 x4 where b3: "findBreakpoint d3 Exec x3 False False = (f3, d4, x4)"
    by (cases "findBreakpoint d3 Exec x3 False False")
  note R = round_trip_counts [OF a b1 b2 b3]
  have "matchCount dbg A (aBreakExec dbg) \<le> 1 \<longrightarrow> \<not> f3" using R(4) by simp
  moreover have "\<not> f3 \<longrightarrow> matchCount dbg A (aBreakExec dbg) \<le> 1" using R(4) by auto
  ultimately show ?thesis using R(1-3) a b1 b2 b3 by simp
qed

theorem breakpoint_round_trip_witness:
  "(case addBreakpoint sampleDebugger Exec resetBreak False of
      (ok, d1, x1) \<Rightarrow>
        (case findBreakpoint d1 Exec x1 False False of
           (f1, d2, x2) \<Rightarrow>
             (case findBreakpoint d2 Exec x2 True False of
                (f2, d3, x3) \<Rightarrow>
                  (case findBreakpoint d3 Exec x3 False False of
                     (f3, d4, x4) \<Rightarrow> ok \<and> f1 \<and> f2 \<and> \<not> f3))))"
proof -
  have "matchCount sampleDebugger resetBreak (aBreakExec sampleDebugger) \<le> 1"
    by (simp add: matchCount_def sampleDebugger_def)
  then show ?thesis
    using breakpoint_round_trip [of sampleDebugger resetBreak]
    by (auto split: prod.splits)
qed

section \<open>Properties of the instruction history and the trace log\<close>

lemma filledHistory_facts:
  "length filledHistory = 1000"
  "filledHistory ! 0 = newAddr sampleDebugger 0 (Some 0) None 0 None None"
  by (simp_all add: filledHistory_def del: upt_rec_numeral)

lemma freshCounts_length: "length freshCounts = 256"
  by (simp add: freshCounts_def del: upto_rec_numeral)

lemma checkBreakpoint_empty:
  assumes "aBreakExec dbg = []" "nSuppressBreaks dbg = 0" "\<not> messageEnabled_INT_HALT dbg"
  shows "checkBreakpoint doCommand dbg a nb Exec fTemp = Some (False, dbg)"
proof -
  let ?d = "dbg\<lparr>nSuppressBreaks := nSuppressBreaks dbg + 1\<rparr>"
  have l: "checkLoop doCommand Exec (refBreakExec dbg) a' nb 0 fTemp ?d = Some (False, ?d)" for a'
    using assms(1) by (subst checkLoop.simps) (simp add: readArray_def)
  have "?d\<lparr>nSuppressBreaks := nSuppressBreaks ?d - 1\<rparr> = dbg" by simp
  then show ?thesis using assms(2,3) l by (simp add: checkBreakpoint_def Let_def)
qed

lemma setAddr_same:
  "cpu d' = cpu d \<Longrightarrow> setAddr d' = setAddr d"
  by (intro ext) (simp add: setAddr_def getCurrentType_def getCurrentMode_def cong: option.case_cong)

lemma recordInstruction_slot:
  assumes "0 \<le> nState" "aaOpcodeCounts dbg \<noteq> []" "probeAddr (cpu dbg) a = Some b"
    "0 \<le> b" "nat b < length (aaOpcodeCounts dbg)"
    "iOpcodeHistory dbg < length (aOpcodeHistory dbg)"
  shows "\<exists>d. recordInstruction dbg a nState = Inr d
           \<and> aOpcodeHistory d = (aOpcodeHistory dbg)
                [iOpcodeHistory dbg :=
                   setAddr dbg (aOpcodeHistory dbg ! iOpcodeHistory dbg) (getIP (cpu dbg))
                     (Some (getCS (cpu dbg))) None 0 None None]
           \<and> iOpcodeHistory d = (iOpcodeHistory dbg + 1) mod length (aOpcodeHistory dbg)
           \<and> traceEnabled d = traceEnabled dbg"
proof -
  let ?d2 = "dbg\<lparr>cOpcodes := cOpcodes dbg + 1,
                  aaOpcodeCounts := (aaOpcodeCounts dbg)
                    [nat b := (fst (aaOpcodeCounts dbg ! nat b), snd (aaOpcodeCounts dbg ! nat b) + 1)]\<rparr>"
  have s: "setAddr ?d2 = setAddr dbg" by (rule setAddr_same) simp
  have m: "(iOpcodeHistory dbg + 1) mod length (aOpcodeHistory dbg)
             = (if iOpcodeHistory dbg + 1 = length (aOpcodeHistory dbg) then 0
                else iOpcodeHistory dbg + 1)"
    using assms(6) by (simp add: mod_if)
  show ?thesis
    using assms by (simp add: recordInstruction_def Let_def s m del: One_nat_def)
qed

text \<open>
  C1, as stated, fails: on the machine whose 1000 history slots are filled, recording
  the next instruction writes its address \<open>0000:0100\<close> over slot 0, which held
  \<open>0000:0000\<close>, and leaves both tracing flags on.
\<close>

theorem history_wraps_counterexample:
  "length (aOpcodeHistory fullHistoryDebugger) = HISTORY_LIMIT fullHistoryDebugger
   \<and> (\<exists>d. checkInstruction sampleCommand fullHistoryDebugger 0x100 1 = Some (Inr (False, d))
          \<and> off (aOpcodeHistory fullHistoryDebugger ! 0) = 0
          \<and> off (aOpcodeHistory d ! 0) = 0x100
          \<and> iOpcodeHistory d = 1
          \<and> traceEnabled d = Some [(''ROLB'', True), (''SHLB'', True)])"
proof -
  let ?d = fullHistoryDebugger
  have c: "checkBreakpoint sampleCommand ?d 0x100 1 Exec False = Some (False, ?d)"
    by (rule checkBreakpoint_empty) (simp_all add: fullHistoryDebugger_def sampleDebugger_def)
  have h: "(0::int) \<le> 1" "aaOpcodeCounts ?d \<noteq> []" "probeAddr (cpu ?d) 0x100 = Some 0x90"
    "(0::int) \<le> 0x90" "nat 0x90 < length (aaOpcodeCounts ?d)"
    "iOpcodeHistory ?d < length (aOpcodeHistory ?d)"
    using freshCounts_length filledHistory_facts(1)
    by (auto simp: fullHistoryDebugger_def sampleDebugger_def sampleCPU_def)
  obtain d where d: "recordInstruction ?d 0x100 1 = Inr d"
    "aOpcodeHistory d = (aOpcodeHistory ?d)
        [iOpcodeHistory ?d :=
           setAddr ?d (aOpcodeHistory ?d ! iOpcodeHistory ?d) (getIP (cpu ?d))
             (Some (getCS (cpu ?d))) None 0 None None]"
    "iOpcodeHistory d = (iOpcodeHistory ?d + 1) mod length (aOpcodeHistory ?d)"
    "traceEnabled d = traceEnabled ?d"
    using recordInstruction_slot [OF h] by blast
  have v: "iOpcodeHistory ?d = 0" "aOpcodeHistory ?d = filledHistory" "getIP (cpu ?d) = 0x100"
    "traceEnabled ?d = Some [(''ROLB'', True), (''SHLB'', True)]" "HISTORY_LIMIT ?d = 1000"
    by (simp_all add: fullHistoryDebugger_def sampleDebugger_def sampleCPU_def)
  have m: "\<not> MAXDEBUG ?d" by (simp add: fullHistoryDebugger_def sampleDebugger_def)
  have 1: "checkInstruction sampleCommand ?d 0x100 1 = Some (Inr (False, d))"
    using c d(1) m by (simp add: checkInstruction_def)
  have 2: "off (aOpcodeHistory ?d ! 0) = 0"
    by (simp add: v filledHistory_facts newAddr_def setAddr_def)
  have 3: "off (aOpcodeHistory d ! 0) = 0x100"
    by (simp add: d(2) v filledHistory_facts(1) setAddr_def)
  have 4: "iOpcodeHistory d = 1" by (simp add: d(3) v filledHistory_facts(1))
  have 5: "traceEnabled d = Some [(''ROLB'', True), (''SHLB'', True)]" by (simp add: d(4) v)
  have 0: "length (aOpcodeHistory ?d) = HISTORY_LIMIT ?d" by (simp add: v filledHistory_facts(1))
  from 0 1 2 3 4 5 show ?thesis by blast
qed

text \<open>
  C1, amended. The instruction history is a ring: when an instruction is recorded
  (stepping, or running with no breakpoint in the way), its address is written over
  the slot at the cursor, the cursor moves on and returns to 0 after the last slot, so
  the instruction after a full round overwrites slot 0; the tracing flags are not
  touched. It is the trace log of \<open>traceLog\<close> that does not wrap: the entry that brings
  its index to the end of the buffer sets every tracing flag to false, and the index
  is not reset; an entry before that leaves the flags as they are.
\<close>

theorem history_wraps_trace_log_stops:
  "((nState = 0 \<or> (0 < nState \<and> aBreakExec dbg = [] \<and> nSuppressBreaks dbg = 0
                     \<and> \<not> messageEnabled_INT_HALT dbg \<and> \<not> MAXDEBUG dbg)) \<longrightarrow>
      aaOpcodeCounts dbg \<noteq> [] \<longrightarrow> probeAddr (cpu dbg) a = Some b \<longrightarrow>
      0 \<le> b \<longrightarrow> nat b < length (aaOpcodeCounts dbg) \<longrightarrow>
      iOpcodeHistory dbg < length (aOpcodeHistory dbg) \<longrightarrow>
        (\<exists>d. checkInstruction doCommand dbg a nState = Some (Inr (False, d))
           \<and> aOpcodeHistory d = (aOpcodeHistory dbg)
                [iOpcodeHistory dbg :=
                   setAddr dbg (aOpcodeHistory dbg ! iOpcodeHistory dbg) (getIP (cpu dbg))
                     (Some (getCS (cpu dbg))) None 0 None None]
           \<and> iOpcodeHistory d = (iOpcodeHistory dbg + 1) mod length (aOpcodeHistory dbg)
           \<and> traceEnabled d = traceEnabled dbg))
   \<and> (DEBUG dbg \<longrightarrow> traceEnabled dbg = Some flags \<longrightarrow> map_of flags name = Some True \<longrightarrow>
        aTraceBuffer dbg \<noteq> [] \<longrightarrow>
          iTraceBuffer (traceLog dbg name s) = iTraceBuffer dbg + 1
          \<and> (length (aTraceBuffer dbg) \<le> iTraceBuffer dbg + 1 \<longrightarrow>
                traceEnabled (traceLog dbg name s) = Some (map (\<lambda>(p, f). (p, False)) flags))
          \<and> (iTraceBuffer dbg + 1 < length (aTraceBuffer dbg) \<longrightarrow>
                traceEnabled (traceLog dbg name s) = Some flags
                \<and> aTraceBuffer (traceLog dbg name s) = (aTraceBuffer dbg)[iTraceBuffer dbg := Some s]))"
proof (intro conjI impI)
  assume n: "nState = 0 \<or> (0 < nState \<and> aBreakExec dbg = [] \<and> nSuppressBreaks dbg = 0
                     \<and> \<not> messageEnabled_INT_HALT dbg \<and> \<not> MAXDEBUG dbg)"
    and h: "aaOpcodeCounts dbg \<noteq> []" "probeAddr (cpu dbg) a = Some b" "0 \<le> b"
      "nat b < length (aaOpcodeCounts dbg)" "iOpcodeHistory dbg < length (aOpcodeHistory dbg)"
  from n have n0: "0 \<le> nState" by auto
  obtain d where d: "recordInstruction dbg a nState = Inr d"
    "aOpcodeHistory d = (aOpcodeHistory dbg)
        [iOpcodeHistory dbg :=
           setAddr dbg (aOpcodeHistory dbg ! iOpcodeHistory dbg) (getIP (cpu dbg))
             (Some (getCS (cpu dbg))) None 0 None None]"
    "iOpcodeHistory d = (iOpcodeHistory dbg + 1) mod length (aOpcodeHistory dbg)"
    "traceEnabled d = traceEnabled dbg"
    using recordInstruction_slot [OF n0 h] by blast
  have "checkInstruction doCommand dbg a nState = Some (Inr (False, d))"
  proof (cases "nState = 0")
    case True
    then show ?thesis using d(1) by (simp add: checkInstruction_def)
  next
    case False
    with n have p: "0 < nState" "aBreakExec dbg = []" "nSuppressBreaks dbg = 0"
      "\<not> messageEnabled_INT_HALT dbg" "\<not> MAXDEBUG dbg" by auto
    have "checkBreakpoint doCommand dbg a 1 Exec False = Some (False, dbg)"
      by (rule checkBreakpoint_empty [OF p(2-4)])
    then show ?thesis using p(1,5) d(1) by (simp add: checkInstruction_def)
  qed
  then show "\<exists>d. checkInstruction doCommand dbg a nState = Some (Inr (False, d))
           \<and> aOpcodeHistory d = (aOpcodeHistory dbg)
                [iOpcodeHistory dbg :=
                   setAddr dbg (aOpcodeHistory dbg ! iOpcodeHistory dbg) (getIP (cpu dbg))
                     (Some (getCS (cpu dbg))) None 0 None None]
           \<and> iOpcodeHistory d = (iOpcodeHistory dbg + 1) mod length (aOpcodeHistory dbg)
           \<and> traceEnabled d = traceEnabled dbg"
    using d(2-4) by blast
next
  assume t: "DEBUG dbg" "traceEnabled dbg = Some flags" "map_of flags name = Some True"
    "aTraceBuffer dbg \<noteq> []"
  show "iTraceBuffer (traceLog dbg name s) = iTraceBuffer dbg + 1"
    using t by (simp add: traceLog_def Let_def)
  {
    assume "length (aTraceBuffer dbg) \<le> iTraceBuffer dbg + 1"
    then show "traceEnabled (traceLog dbg name s) = Some (map (\<lambda>(p, f). (p, False)) flags)"
      using t by (auto simp: traceLog_def Let_def arraySet_def)
  }
  {
    assume l: "iTraceBuffer dbg + 1 < length (aTraceBuffer dbg)"
    show "traceEnabled (traceLog dbg name s) = Some flags"
      using t l by (simp add: traceLog_def Let_def arraySet_def)
    show "aTraceBuffer (traceLog dbg name s) = (aTraceBuffer dbg)[iTraceBuffer dbg := Some s]"
      using t l by (simp add: traceLog_def Let_def arraySet_def)
  }
qed

theorem history_wraps_trace_log_stops_witness:
  "(\<exists>d. checkInstruction sampleCommand fullHistoryDebugger 0x100 1 = Some (Inr (False, d))
        \<and> aOpcodeHistory d = filledHistory
             [0 := setAddr fullHistoryDebugger (filledHistory ! 0) 0x100 (Some 0) None 0 None None]
        \<and> iOpcodeHistory d = 1
        \<and> traceEnabled d = traceEnabled fullHistoryDebugger)
   \<and> iTraceBuffer (traceLog traceDebugger ''ROLB'' ''c'') = 3
   \<and> traceEnabled (traceLog traceDebugger ''ROLB'' ''c'')
        = Some [(''ROLB'', False), (''SHLB'', False)]"
proof -
  let ?d = fullHistoryDebugger
  let ?t = traceDebugger
  have v: "iOpcodeHistory ?d = 0" "aOpcodeHistory ?d = filledHistory"
    "getIP (cpu ?d) = 0x100" "getCS (cpu ?d) = 0"
    by (simp_all add: fullHistoryDebugger_def sampleDebugger_def sampleCPU_def)
  have h: "(1::int) = 0 \<or> ((0::int) < 1 \<and> aBreakExec ?d = [] \<and> nSuppressBreaks ?d = 0
                     \<and> \<not> messageEnabled_INT_HALT ?d \<and> \<not> MAXDEBUG ?d)"
    "aaOpcodeCounts ?d \<noteq> []" "probeAddr (cpu ?d) 0x100 = Some 0x90"
    "(0::int) \<le> 0x90" "nat 0x90 < length (aaOpcodeCounts ?d)"
    "iOpcodeHistory ?d < length (aOpcodeHistory ?d)"
    using freshCounts_length filledHistory_facts(1)
    by (auto simp: fullHistoryDebugger_def sampleDebugger_def sampleCPU_def)
  have 1: "\<exists>d. checkInstruction sampleCommand ?d 0x100 1 = Some (Inr (False, d))
        \<and> aOpcodeHistory d = filledHistory
             [0 := setAddr ?d (filledHistory ! 0) 0x100 (Some 0) None 0 None None]
        \<and> iOpcodeHistory d = 1
        \<and> traceEnabled d = traceEnabled ?d"
    using history_wraps_trace_log_stops
      [where nState = 1 and dbg = ?d and a = "0x100" and b = "0x90" and doCommand = sampleCommand]
      h
    by (simp add: v filledHistory_facts(1))
  have g: "DEBUG ?t" "traceEnabled ?t = Some [(''ROLB'', True), (''SHLB'', True)]"
    "map_of [(''ROLB'', True), (''SHLB'', True)] ''ROLB'' = Some True" "aTraceBuffer ?t \<noteq> []"
    "length (aTraceBuffer ?t) \<le> iTraceBuffer ?t + 1" "iTraceBuffer ?t = 2"
    by (simp_all add: traceDebugger_def sampleDebugger_def)
  have 2: "iTraceBuffer (traceLog ?t ''ROLB'' ''c'') = 3
     \<and> traceEnabled (traceLog ?t ''ROLB'' ''c'') = Some [(''ROLB'', False), (''SHLB'', False)]"
    using history_wraps_trace_log_stops
      [where dbg = ?t and flags = "[(''ROLB'', True), (''SHLB'', True)]" and name = "''ROLB''"
         and s = "''c''"]
      g
    by simp
  from 1 2 show ?thesis by blast
qed

end
